theory Spec2Isabelle
  imports Main
begin

section \<open>The blockchain indexer of backend/src/services/indexer.js\<close>

text \<open>
  The indexer reads the events of the BountyManager contract and writes them into a
  PostgreSQL store. The model below follows \<^verbatim>\<open>class BlockchainIndexer\<close> method by
  method. The database is an explicit value that every method takes and returns; each
  SQL statement of the source is one function on it.

  What lies outside the JavaScript source is fixed as follows.
  \<^item> A table is the list of its rows in insertion order. A row carries the columns that
    the indexer's statements name, with the defaults of \<^verbatim>\<open>schema.sql\<close> for those
    columns, and the \<^verbatim>\<open>title\<close> of bounties and submissions, which \<^verbatim>\<open>schema.sql\<close>
    declares \<^verbatim>\<open>NOT NULL\<close> without a default and which no \<^verbatim>\<open>INSERT\<close> of the indexer names.
    The \<^verbatim>\<open>UNIQUE\<close> and \<^verbatim>\<open>NOT NULL\<close> constraints on these columns are checked as
    PostgreSQL checks them: \<^verbatim>\<open>NOT NULL\<close> on the proposed row, before the conflict of an
    \<^verbatim>\<open>ON CONFLICT\<close> clause is looked for.
  \<^item> The \<^verbatim>\<open>BEFORE UPDATE\<close> triggers of \<^verbatim>\<open>schema.sql\<close> set \<^verbatim>\<open>updated_at\<close> to \<^verbatim>\<open>NOW()\<close>
    in every updated row of bounties and submissions.
  \<^item> Numeric columns hold unbounded numbers.
  \<^item> The \<^verbatim>\<open>SERIAL\<close> keys of users and bounties, which the indexer reads back, come
    from a sequence counter kept beside the tables; an \<^verbatim>\<open>INSERT\<close> draws from the
    sequence also when it ends in the update of its \<^verbatim>\<open>ON CONFLICT\<close> clause or in an
    error. The \<^verbatim>\<open>id\<close> columns of submissions, hunter_stats and indexer_state and
    their sequences are named by no statement of the indexer and are left out.
  \<^item> A value drawn from a sequence is not yet a key of its table.
  \<^item> \<^verbatim>\<open>query\<close> is defined in config/database.js, which is not among the sources. It
    is taken to run one statement on its own and to hand the selected rows back;
    how it hands back \<^verbatim>\<open>last_block\<close>, the one \<^verbatim>\<open>BIGINT\<close> the indexer reads, is
    fixed at \<open>last_block_value\<close> below.
  \<^item> \<^verbatim>\<open>NOW()\<close> is a clock reading handed to the method that runs the statement; no
    method of the indexer reads it in more than one statement on the same row.
  \<^item> The contract's log is the whole log, of which a range query returns the part in
    its range; the contract's getters return the same state throughout a run. The head
    block is read anew by every call of \<^verbatim>\<open>getBlockNumber\<close>.
  \<^item> The Redis cache (\<^verbatim>\<open>cache.deletePattern\<close>), the console output other than
    \<^verbatim>\<open>console.error\<close>, and the pause of 100 ms between two batches are not part of the
    state.
  \<^item> \<^verbatim>\<open>toLowerCase\<close> acts on the letters A to Z, which is all an address holds.
\<close>

subsection \<open>Events and contract state\<close>

datatype event_args =
    BountyCreated nat string nat
  | SubmissionCreated nat nat string
  | SubmissionValidated nat nat bool
  | RewardPaid nat string nat
  | BountyCompleted nat

record event =
  args :: event_args
  blockNumber :: int
  logIndex :: int
  transactionHash :: string
  blockTimestamp :: int

text \<open>What \<^verbatim>\<open>bountyManager.bounties(id)\<close> and \<^verbatim>\<open>bountyManager.submissions(id)\<close> return.\<close>

record bounty_data =
  targetContract :: string
  totalReward :: nat
  remainingReward :: nat
  lockAmount :: nat
  bd_status :: nat
  deadline :: int
  isActive :: bool
  paymentToken :: string

record submission_data =
  sd_severity :: nat
  sd_status :: nat
  rewardAmount :: nat
  submittedAt :: int
  isPaid :: bool

datatype event_kind = KBountyCreated | KSubmissionCreated | KSubmissionValidated
  | KRewardPaid | KBountyCompleted

fun kind_of :: "event_args \<Rightarrow> event_kind" where
  "kind_of (BountyCreated _ _ _) = KBountyCreated"
| "kind_of (SubmissionCreated _ _ _) = KSubmissionCreated"
| "kind_of (SubmissionValidated _ _ _) = KSubmissionValidated"
| "kind_of (RewardPaid _ _ _) = KRewardPaid"
| "kind_of (BountyCompleted _) = KBountyCompleted"

text \<open>
  The event source: the head block (\<open>heads k\<close> is what the \<open>k\<close>-th call of
  \<^verbatim>\<open>provider.getBlockNumber()\<close> returns), the contract's log in the order the provider
  returns it, the two public getters, and the database clock (\<open>clock k\<close> is what
  \<^verbatim>\<open>NOW()\<close> gives during the \<open>k\<close>-th method that reads it).
\<close>

record chain =
  heads :: "nat \<Rightarrow> int"
  logs :: "event list"
  bounties_of :: "nat \<Rightarrow> bounty_data"
  submissions_of :: "nat \<Rightarrow> submission_data"
  clock :: "nat \<Rightarrow> int"

text \<open>\<^verbatim>\<open>contract.queryFilter(filter, fromBlock, toBlock)\<close> for the filter of one event type.\<close>

definition queryFilter :: "chain \<Rightarrow> event_kind \<Rightarrow> int \<Rightarrow> int \<Rightarrow> event list" where
  "queryFilter c k fromBlock toBlock =
     filter (\<lambda>e. kind_of (args e) = k \<and> fromBlock \<le> blockNumber e \<and> blockNumber e \<le> toBlock)
       (logs c)"

subsection \<open>The process environment\<close>

text \<open>
  \<open>INDEXER_START_BLOCK\<close> and \<open>INDEXER_BATCH_SIZE\<close> hold the result of \<^verbatim>\<open>parseInt\<close>
  (\<open>None\<close> for \<^verbatim>\<open>NaN\<close>).
\<close>

record env =
  NODE_ENV :: string
  BOUNTY_MANAGER_ADDRESS :: string
  INDEXER_START_BLOCK :: "int option"
  INDEXER_BATCH_SIZE :: "int option"

definition lower_char :: "char \<Rightarrow> char" where
  "lower_char c =
     (let n = (of_char c :: nat) in if 65 \<le> n \<and> n \<le> 90 then char_of (n + 32) else c)"

definition toLowerCase :: "string \<Rightarrow> string" where
  "toLowerCase s = map lower_char s"

definition network :: "env \<Rightarrow> string" where
  "network e = (if NODE_ENV e = ''production'' then ''mainnet'' else ''sepolia'')"

text \<open>\<^verbatim>\<open>parseInt(process.env.INDEXER_START_BLOCK) || 0\<close>\<close>

definition start_block :: "env \<Rightarrow> int" where
  "start_block e = (case INDEXER_START_BLOCK e of None \<Rightarrow> 0 | Some n \<Rightarrow> if n = 0 then 0 else n)"


subsection \<open>The store\<close>

record user_row =
  u_id :: nat
  u_wallet_address :: string
  u_role :: string

text \<open>\<open>None\<close> in a title is \<^verbatim>\<open>NULL\<close>.\<close>

record bounty_row =
  b_id :: nat
  b_bounty_id :: nat
  b_title :: "string option"
  b_company_id :: nat
  b_target_contract_address :: string
  b_total_reward :: nat
  b_remaining_reward :: nat
  b_lock_amount :: nat
  b_status :: nat
  b_deadline :: int
  b_is_active :: bool
  b_payment_token :: string
  b_block_number :: int
  b_tx_hash :: string
  b_created_at :: int
  b_updated_at :: int

record submission_row =
  s_submission_id :: nat
  s_title :: "string option"
  s_bounty_id :: nat
  s_hunter_id :: nat
  s_severity :: nat
  s_status :: nat
  s_reward_amount :: nat
  s_submitted_at :: int
  s_is_paid :: bool
  s_block_number :: int
  s_tx_hash :: string
  s_paid_at :: "int option"
  s_updated_at :: int

record hunter_stats_row =
  hs_wallet_address :: string
  hs_total_earned :: nat
  hs_successful_submissions :: nat
  hs_total_submissions :: nat

record indexer_state_row =
  is_contract_address :: string
  is_network :: string
  is_last_block :: int
  is_last_updated :: int

datatype error = UniqueViolation string | NotNullViolation string

datatype console_line = BountyNotFound nat | HistoricalIndexingError error | IndexerError error

text \<open>
  What the indexer did to the outside, in order: a range query to the provider, or an
  event handed to its handler. It is written by the methods that do these things and
  read by no method.
\<close>

datatype action = Fetched event_kind int int | Applied event

record world =
  users :: "user_row list"
  bounties :: "bounty_row list"
  submissions :: "submission_row list"
  hunter_stats :: "hunter_stats_row list"
  indexer_state :: "indexer_state_row list"
  users_seq :: nat
  bounties_seq :: nat
  console :: "console_line list"
  ticks :: nat
  head_reads :: nat
  trace :: "action list"

text \<open>
  A method that throws leaves behind what its earlier statements wrote (no statement of
  the indexer runs inside a transaction): \<open>Inl (e, w)\<close> is the error with the store as
  it stands.
\<close>

type_synonym outcome = "(error \<times> world) + world"

subsection \<open>The checkpoint: initializeState, getLastIndexedBlock, updateLastIndexedBlock\<close>

definition state_key :: "env \<Rightarrow> indexer_state_row \<Rightarrow> bool" where
  "state_key e r \<longleftrightarrow>
     is_contract_address r = toLowerCase (BOUNTY_MANAGER_ADDRESS e) \<and> is_network r = network e"

definition initializeState :: "int \<Rightarrow> env \<Rightarrow> world \<Rightarrow> world" where
  "initializeState now e w =
     (if list_ex (state_key e) (indexer_state w)
      then w\<lparr>indexer_state :=
               map (\<lambda>r. if state_key e r then r\<lparr>is_last_updated := now\<rparr> else r) (indexer_state w)\<rparr>
      else w\<lparr>indexer_state := indexer_state w @
               [\<lparr>is_contract_address = toLowerCase (BOUNTY_MANAGER_ADDRESS e),
                 is_network = network e,
                 is_last_block = start_block e,
                 is_last_updated = now\<rparr>]\<rparr>)"

text \<open>
  Modelled from the spec: \<^verbatim>\<open>query\<close> of config/database.js is missing, and with it the
  form in which the \<^verbatim>\<open>BIGINT\<close> column \<^verbatim>\<open>last_block\<close> of a selected row reaches
  the indexer. The Checkpoint Store of the spec hands back a block height,
  \<^verbatim>\<open>get(sourceKey) -> Option<BlockHeight>\<close>; so \<^verbatim>\<open>rows[0].last_block\<close> is the stored
  number.
\<close>

definition last_block_value :: "indexer_state_row \<Rightarrow> int" where
  "last_block_value r = is_last_block r"

text \<open>\<^verbatim>\<open>result.rows[0]?.last_block || parseInt(process.env.INDEXER_START_BLOCK) || 0\<close>\<close>

definition getLastIndexedBlock :: "env \<Rightarrow> world \<Rightarrow> int" where
  "getLastIndexedBlock e w =
     (case filter (state_key e) (indexer_state w) of
        [] \<Rightarrow> start_block e
      | r # _ \<Rightarrow> if last_block_value r = 0 then start_block e else last_block_value r)"

definition updateLastIndexedBlock :: "int \<Rightarrow> env \<Rightarrow> int \<Rightarrow> world \<Rightarrow> world" where
  "updateLastIndexedBlock now e blk w =
     w\<lparr>indexer_state :=
         map (\<lambda>r. if state_key e r then r\<lparr>is_last_block := blk, is_last_updated := now\<rparr>
                  else r) (indexer_state w)\<rparr>"

subsection \<open>Statements on users and hunter_stats\<close>

text \<open>\<^verbatim>\<open>SELECT id FROM users WHERE wallet_address = $1\<close>\<close>

definition select_user :: "string \<Rightarrow> world \<Rightarrow> user_row list" where
  "select_user wallet w = filter (\<lambda>u. u_wallet_address u = wallet) (users w)"

text \<open>
  \<^verbatim>\<open>INSERT INTO users (wallet_address, role) VALUES ($1, $2) RETURNING id\<close>;
  \<^verbatim>\<open>wallet_address\<close> is \<^verbatim>\<open>UNIQUE\<close>.
\<close>

definition insert_user :: "string \<Rightarrow> string \<Rightarrow> world \<Rightarrow> (error \<times> world) + (nat \<times> world)" where
  "insert_user wallet role w =
     (let i = Suc (users_seq w); w1 = w\<lparr>users_seq := i\<rparr> in
      if list_ex (\<lambda>u. u_wallet_address u = wallet) (users w)
      then Inl (UniqueViolation ''users_wallet_address_key'', w1)
      else Inr (i, w1\<lparr>users := users w @
                      [\<lparr>u_id = i, u_wallet_address = wallet, u_role = role\<rparr>]\<rparr>))"

text \<open>
  \<^verbatim>\<open>INSERT INTO hunter_stats (wallet_address) VALUES ($1)\<close>; \<^verbatim>\<open>wallet_address\<close> is
  \<^verbatim>\<open>UNIQUE\<close> and the three counters default to 0.
\<close>

definition insert_hunter_stats :: "string \<Rightarrow> world \<Rightarrow> outcome" where
  "insert_hunter_stats wallet w =
     (if list_ex (\<lambda>h. hs_wallet_address h = wallet) (hunter_stats w)
      then Inl (UniqueViolation ''hunter_stats_wallet_address_key'', w)
      else Inr (w\<lparr>hunter_stats := hunter_stats w @
                    [\<lparr>hs_wallet_address = wallet, hs_total_earned = 0,
                      hs_successful_submissions = 0, hs_total_submissions = 0\<rparr>]\<rparr>))"

text \<open>
  \<^verbatim>\<open>UPDATE hunter_stats SET total_submissions = total_submissions + 1 WHERE wallet_address = $1\<close>
\<close>

definition increment_total_submissions :: "string \<Rightarrow> world \<Rightarrow> world" where
  "increment_total_submissions wallet w =
     w\<lparr>hunter_stats :=
         map (\<lambda>h. if hs_wallet_address h = wallet
                  then h\<lparr>hs_total_submissions := hs_total_submissions h + 1\<rparr> else h)
           (hunter_stats w)\<rparr>"

text \<open>
  \<^verbatim>\<open>UPDATE hunter_stats SET total_earned = total_earned + $1,
  successful_submissions = successful_submissions + 1 WHERE wallet_address = $2\<close>
\<close>

definition add_earned :: "nat \<Rightarrow> string \<Rightarrow> world \<Rightarrow> world" where
  "add_earned amount wallet w =
     w\<lparr>hunter_stats :=
         map (\<lambda>h. if hs_wallet_address h = wallet
                  then h\<lparr>hs_total_earned := hs_total_earned h + amount,
                         hs_successful_submissions := hs_successful_submissions h + 1\<rparr>
                  else h)
           (hunter_stats w)\<rparr>"

subsection \<open>handleBountyCreated\<close>

text \<open>
  \<^verbatim>\<open>INSERT INTO bounties (...) VALUES (...) ON CONFLICT (bounty_id) DO UPDATE SET
  total_reward, remaining_reward, status, is_active = EXCLUDED..., updated_at = NOW()\<close>.
  The row \<open>r\<close> is the proposed row: the thirteen values of the statement and the
  defaults of the columns it does not name. The key is drawn from the sequence, the
  \<^verbatim>\<open>NOT NULL\<close> constraint on the title is checked on the proposed row, and only then is
  the conflict looked for.
\<close>

definition upsert_bounty :: "int \<Rightarrow> bounty_row \<Rightarrow> world \<Rightarrow> outcome" where
  "upsert_bounty now r w =
     (let i = Suc (bounties_seq w); w1 = w\<lparr>bounties_seq := i\<rparr> in
      if b_title r = None then Inl (NotNullViolation ''bounties.title'', w1)
      else if list_ex (\<lambda>b. b_bounty_id b = b_bounty_id r) (bounties w)
      then Inr (w1\<lparr>bounties :=
               map (\<lambda>b. if b_bounty_id b = b_bounty_id r
                        then b\<lparr>b_total_reward := b_total_reward r,
                               b_remaining_reward := b_remaining_reward r,
                               b_status := b_status r,
                               b_is_active := b_is_active r,
                               b_updated_at := now\<rparr>
                        else b) (bounties w)\<rparr>)
      else Inr (w1\<lparr>bounties := bounties w @ [r\<lparr>b_id := i, b_updated_at := now\<rparr>]\<rparr>))"

text \<open>The statement of \<^verbatim>\<open>handleBountyCreated\<close> names no title: the proposed title is \<^verbatim>\<open>NULL\<close>.\<close>

definition handleBountyCreated ::
  "int \<Rightarrow> chain \<Rightarrow> event \<Rightarrow> nat \<Rightarrow> string \<Rightarrow> world \<Rightarrow> outcome" where
  "handleBountyCreated now c ev bountyId company w =
     (let bountyData = bounties_of c bountyId in
      case (case select_user (toLowerCase company) w of
              [] \<Rightarrow> insert_user (toLowerCase company) ''company'' w
            | u # _ \<Rightarrow> Inr (u_id u, w)) of
        Inl x \<Rightarrow> Inl x
      | Inr (companyId, w1) \<Rightarrow>
          upsert_bounty now
                 \<lparr>b_id = 0,
                  b_bounty_id = bountyId,
                  b_title = None,
                  b_company_id = companyId,
                  b_target_contract_address = toLowerCase (targetContract bountyData),
                  b_total_reward = totalReward bountyData,
                  b_remaining_reward = remainingReward bountyData,
                  b_lock_amount = lockAmount bountyData,
                  b_status = bd_status bountyData,
                  b_deadline = deadline bountyData * 1000,
                  b_is_active = isActive bountyData,
                  b_payment_token = toLowerCase (paymentToken bountyData),
                  b_block_number = blockNumber ev,
                  b_tx_hash = transactionHash ev,
                  b_created_at = blockTimestamp ev * 1000,
                  b_updated_at = now\<rparr> w1)"

subsection \<open>handleSubmissionCreated\<close>

text \<open>
  \<^verbatim>\<open>INSERT INTO submissions (...) VALUES (...) ON CONFLICT (submission_id) DO UPDATE SET
  severity, status, reward_amount, is_paid = EXCLUDED..., updated_at = NOW()\<close>, with
  the \<^verbatim>\<open>NOT NULL\<close> constraint on the title checked on the proposed row first.
\<close>

definition upsert_submission :: "int \<Rightarrow> submission_row \<Rightarrow> world \<Rightarrow> outcome" where
  "upsert_submission now r w =
     (if s_title r = None then Inl (NotNullViolation ''submissions.title'', w)
      else if list_ex (\<lambda>s. s_submission_id s = s_submission_id r) (submissions w)
      then Inr (w\<lparr>submissions :=
               map (\<lambda>s. if s_submission_id s = s_submission_id r
                        then s\<lparr>s_severity := s_severity r,
                               s_status := s_status r,
                               s_reward_amount := s_reward_amount r,
                               s_is_paid := s_is_paid r,
                               s_updated_at := now\<rparr>
                        else s) (submissions w)\<rparr>)
      else Inr (w\<lparr>submissions := submissions w @ [r\<lparr>s_paid_at := None, s_updated_at := now\<rparr>]\<rparr>))"

text \<open>
  The statement of \<^verbatim>\<open>handleSubmissionCreated\<close> names no title either. The increment of
  total_submissions stands behind it.
\<close>

definition handleSubmissionCreated ::
  "int \<Rightarrow> chain \<Rightarrow> event \<Rightarrow> nat \<Rightarrow> nat \<Rightarrow> string \<Rightarrow> world \<Rightarrow> outcome" where
  "handleSubmissionCreated now c ev submissionId bountyId hunter w =
     (let submissionData = submissions_of c submissionId in
      case (case select_user (toLowerCase hunter) w of
              [] \<Rightarrow>
                (case insert_user (toLowerCase hunter) ''hunter'' w of
                   Inl x \<Rightarrow> Inl x
                 | Inr (i, w1) \<Rightarrow>
                     (case insert_hunter_stats (toLowerCase hunter) w1 of
                        Inl x \<Rightarrow> Inl x
                      | Inr w2 \<Rightarrow> Inr (i, w2)))
            | u # _ \<Rightarrow> Inr (u_id u, w)) of
        Inl x \<Rightarrow> Inl x
      | Inr (hunterId, w3) \<Rightarrow>
          (case filter (\<lambda>b. b_bounty_id b = bountyId) (bounties w3) of
             [] \<Rightarrow> Inr (w3\<lparr>console := console w3 @ [BountyNotFound bountyId]\<rparr>)
           | b # _ \<Rightarrow>
               (case upsert_submission now
                        \<lparr>s_submission_id = submissionId,
                         s_title = None,
                         s_bounty_id = b_id b,
                         s_hunter_id = hunterId,
                         s_severity = sd_severity submissionData,
                         s_status = sd_status submissionData,
                         s_reward_amount = rewardAmount submissionData,
                         s_submitted_at = submittedAt submissionData * 1000,
                         s_is_paid = isPaid submissionData,
                         s_block_number = blockNumber ev,
                         s_tx_hash = transactionHash ev,
                         s_paid_at = None,
                         s_updated_at = now\<rparr> w3 of
                  Inl x \<Rightarrow> Inl x
                | Inr w4 \<Rightarrow> Inr (increment_total_submissions (toLowerCase hunter) w4))))"

subsection \<open>handleSubmissionValidated, handleRewardPaid, handleBountyCompleted\<close>

definition handleSubmissionValidated :: "int \<Rightarrow> nat \<Rightarrow> nat \<Rightarrow> bool \<Rightarrow> world \<Rightarrow> outcome" where
  "handleSubmissionValidated now submissionId severity isValid w =
     Inr (w\<lparr>submissions :=
              map (\<lambda>s. if s_submission_id s = submissionId
                       then s\<lparr>s_severity := severity,
                              s_status := (if isValid then 2 else 3),
                              s_updated_at := now\<rparr>
                       else s) (submissions w)\<rparr>)"

text \<open>
  The \<^verbatim>\<open>UPDATE submissions\<close> of \<^verbatim>\<open>handleRewardPaid\<close> names no updated_at; the trigger
  sets it.
\<close>

definition handleRewardPaid :: "int \<Rightarrow> nat \<Rightarrow> string \<Rightarrow> nat \<Rightarrow> world \<Rightarrow> outcome" where
  "handleRewardPaid now submissionId hunter amount w =
     Inr (add_earned amount (toLowerCase hunter)
           (w\<lparr>submissions :=
                map (\<lambda>s. if s_submission_id s = submissionId
                         then s\<lparr>s_is_paid := True,
                                s_reward_amount := amount,
                                s_paid_at := Some now,
                                s_updated_at := now\<rparr>
                         else s) (submissions w)\<rparr>))"

definition handleBountyCompleted :: "int \<Rightarrow> nat \<Rightarrow> world \<Rightarrow> outcome" where
  "handleBountyCompleted now bountyId w =
     Inr (w\<lparr>bounties :=
              map (\<lambda>b. if b_bounty_id b = bountyId
                       then b\<lparr>b_status := 4, b_is_active := False, b_updated_at := now\<rparr>
                       else b) (bounties w)\<rparr>)"

text \<open>
  The handler that the source attaches to each event type, in the range queries
  (\<^verbatim>\<open>indexBountyCreatedEvents\<close> ...) and in the listeners of \<^verbatim>\<open>startRealtimeIndexing\<close> alike.
\<close>

definition handle :: "int \<Rightarrow> chain \<Rightarrow> event \<Rightarrow> world \<Rightarrow> outcome" where
  "handle now c ev w =
     (case args ev of
        BountyCreated bountyId company _ \<Rightarrow> handleBountyCreated now c ev bountyId company w
      | SubmissionCreated submissionId bountyId hunter \<Rightarrow>
          handleSubmissionCreated now c ev submissionId bountyId hunter w
      | SubmissionValidated submissionId severity isValid \<Rightarrow>
          handleSubmissionValidated now submissionId severity isValid w
      | RewardPaid submissionId hunter amount \<Rightarrow> handleRewardPaid now submissionId hunter amount w
      | BountyCompleted bountyId \<Rightarrow> handleBountyCompleted now bountyId w)"

subsection \<open>Range queries and the batch\<close>

text \<open>
  One loop step of \<^verbatim>\<open>for (const event of events) await this.handle...(event)\<close>: the
  handler runs with the clock reading of its turn.
\<close>

definition applyEvent :: "chain \<Rightarrow> event \<Rightarrow> world \<Rightarrow> outcome" where
  "applyEvent c ev w =
     handle (clock c (ticks w)) c ev
       (w\<lparr>ticks := Suc (ticks w), trace := trace w @ [Applied ev]\<rparr>)"

fun apply_events :: "chain \<Rightarrow> event list \<Rightarrow> world \<Rightarrow> outcome" where
  "apply_events c [] w = Inr w"
| "apply_events c (ev # evs) w =
     (case applyEvent c ev w of Inl x \<Rightarrow> Inl x | Inr w' \<Rightarrow> apply_events c evs w')"

definition indexEvents :: "chain \<Rightarrow> event_kind \<Rightarrow> int \<Rightarrow> int \<Rightarrow> world \<Rightarrow> outcome" where
  "indexEvents c k fromBlock toBlock w =
     apply_events c (queryFilter c k fromBlock toBlock)
       (w\<lparr>trace := trace w @ [Fetched k fromBlock toBlock]\<rparr>)"

definition indexBountyCreatedEvents :: "chain \<Rightarrow> int \<Rightarrow> int \<Rightarrow> world \<Rightarrow> outcome" where
  "indexBountyCreatedEvents c = indexEvents c KBountyCreated"

definition indexSubmissionCreatedEvents :: "chain \<Rightarrow> int \<Rightarrow> int \<Rightarrow> world \<Rightarrow> outcome" where
  "indexSubmissionCreatedEvents c = indexEvents c KSubmissionCreated"

definition indexSubmissionValidatedEvents :: "chain \<Rightarrow> int \<Rightarrow> int \<Rightarrow> world \<Rightarrow> outcome" where
  "indexSubmissionValidatedEvents c = indexEvents c KSubmissionValidated"

definition indexRewardPaidEvents :: "chain \<Rightarrow> int \<Rightarrow> int \<Rightarrow> world \<Rightarrow> outcome" where
  "indexRewardPaidEvents c = indexEvents c KRewardPaid"

definition indexBountyCompletedEvents :: "chain \<Rightarrow> int \<Rightarrow> int \<Rightarrow> world \<Rightarrow> outcome" where
  "indexBountyCompletedEvents c = indexEvents c KBountyCompleted"

definition and_then :: "outcome \<Rightarrow> (world \<Rightarrow> outcome) \<Rightarrow> outcome" where
  "and_then r f = (case r of Inl x \<Rightarrow> Inl x | Inr w \<Rightarrow> f w)"

text \<open>The body of the \<^verbatim>\<open>for\<close> loop of \<^verbatim>\<open>indexHistoricalEvents\<close>.\<close>

definition index_batch :: "chain \<Rightarrow> env \<Rightarrow> int \<Rightarrow> int \<Rightarrow> world \<Rightarrow> outcome" where
  "index_batch c e fromBlock toBlock w =
     and_then (indexBountyCreatedEvents c fromBlock toBlock w) (\<lambda>w1.
     and_then (indexSubmissionCreatedEvents c fromBlock toBlock w1) (\<lambda>w2.
     and_then (indexSubmissionValidatedEvents c fromBlock toBlock w2) (\<lambda>w3.
     and_then (indexRewardPaidEvents c fromBlock toBlock w3) (\<lambda>w4.
     and_then (indexBountyCompletedEvents c fromBlock toBlock w4) (\<lambda>w5.
     Inr (updateLastIndexedBlock (clock c (ticks w5)) e toBlock
            (w5\<lparr>ticks := Suc (ticks w5)\<rparr>)))))))"

subsection \<open>indexHistoricalEvents\<close>





subsection \<open>startRealtimeIndexing and start\<close>

text \<open>
  \<^verbatim>\<open>startRealtimeIndexing\<close> registers one listener per event type; each listener passes
  the arriving event to the handler of its type and does nothing else. \<open>arriving\<close> is
  the sequence of events delivered after the registration. The listeners are taken to
  run one after the other, each to its end; a listener that throws ends the run.
\<close>

definition startRealtimeIndexing :: "chain \<Rightarrow> event list \<Rightarrow> world \<Rightarrow> outcome" where
  "startRealtimeIndexing c arriving w = apply_events c arriving w"



section \<open>Observations\<close>

text \<open>The store that a method leaves behind, whether it returned or threw.\<close>

definition left_behind :: "outcome \<Rightarrow> world" where
  "left_behind r = (case r of Inl (err, w) \<Rightarrow> w | Inr w \<Rightarrow> w)"

text \<open>The events handed to a handler, and the range queries made, in order.\<close>

fun applied_events :: "action list \<Rightarrow> event list" where
  "applied_events [] = []"
| "applied_events (Applied ev # acts) = ev # applied_events acts"
| "applied_events (Fetched k fromBlock toBlock # acts) = applied_events acts"

fun fetched :: "action list \<Rightarrow> (event_kind \<times> int \<times> int) list" where
  "fetched [] = []"
| "fetched (Applied ev # acts) = fetched acts"
| "fetched (Fetched k fromBlock toBlock # acts) = (k, fromBlock, toBlock) # fetched acts"

text \<open>The event types in the order in which the loop body queries them.\<close>

definition event_kinds :: "event_kind list" where
  "event_kinds = [KBountyCreated, KSubmissionCreated, KSubmissionValidated, KRewardPaid,
     KBountyCompleted]"

definition batch_events :: "chain \<Rightarrow> int \<Rightarrow> int \<Rightarrow> event list" where
  "batch_events c fromBlock toBlock =
     concat (map (\<lambda>k. queryFilter c k fromBlock toBlock) event_kinds)"

text \<open>The position of an event type in the loop body.\<close>

fun kind_rank :: "event_kind \<Rightarrow> nat" where
  "kind_rank KBountyCreated = 0"
| "kind_rank KSubmissionCreated = 1"
| "kind_rank KSubmissionValidated = 2"
| "kind_rank KRewardPaid = 3"
| "kind_rank KBountyCompleted = 4"

text \<open>The log order: ascending (blockNumber, logIndex).\<close>

definition log_before :: "event \<Rightarrow> event \<Rightarrow> bool" where
  "log_before a b \<longleftrightarrow>
     blockNumber a < blockNumber b \<or> (blockNumber a = blockNumber b \<and> logIndex a < logIndex b)"

text \<open>
  The loop body of \<^verbatim>\<open>indexHistoricalEvents\<close> as the sequence of its awaited calls: per
  event type the range query and one handler call for each event it returns, and at the
  end the write of the checkpoint.
\<close>

datatype step = StepQuery event_kind int int | StepHandle event | StepCheckpoint int

fun run_step :: "chain \<Rightarrow> env \<Rightarrow> step \<Rightarrow> world \<Rightarrow> outcome" where
  "run_step c e (StepQuery k fromBlock toBlock) w =
     Inr (w\<lparr>trace := trace w @ [Fetched k fromBlock toBlock]\<rparr>)"
| "run_step c e (StepHandle ev) w = applyEvent c ev w"
| "run_step c e (StepCheckpoint toBlock) w =
     Inr (updateLastIndexedBlock (clock c (ticks w)) e toBlock (w\<lparr>ticks := Suc (ticks w)\<rparr>))"

fun run_steps :: "chain \<Rightarrow> env \<Rightarrow> step list \<Rightarrow> world \<Rightarrow> outcome" where
  "run_steps c e [] w = Inr w"
| "run_steps c e (s # ss) w =
     (case run_step c e s w of Inl x \<Rightarrow> Inl x | Inr w' \<Rightarrow> run_steps c e ss w')"

fun handled :: "step list \<Rightarrow> event list" where
  "handled [] = []"
| "handled (StepHandle ev # ss) = ev # handled ss"
| "handled (StepQuery k fromBlock toBlock # ss) = handled ss"
| "handled (StepCheckpoint toBlock # ss) = handled ss"

definition batch_steps :: "chain \<Rightarrow> int \<Rightarrow> int \<Rightarrow> step list" where
  "batch_steps c fromBlock toBlock =
     concat (map (\<lambda>k. StepQuery k fromBlock toBlock
                        # map StepHandle (queryFilter c k fromBlock toBlock)) event_kinds)
     @ [StepCheckpoint toBlock]"

text \<open>
  A crash in the middle of a batch. No statement of the indexer runs inside a
  transaction, so what the calls before the crash wrote stays written: when the process
  dies after \<open>k\<close> calls of the loop body, the store is the one those \<open>k\<close> calls
  leave behind.
\<close>

definition crash_after :: "nat \<Rightarrow> chain \<Rightarrow> env \<Rightarrow> int \<Rightarrow> int \<Rightarrow> world \<Rightarrow> world" where
  "crash_after k c e fromBlock toBlock w =
     left_behind (run_steps c e (take k (batch_steps c fromBlock toBlock)) w)"

text \<open>
  An event delivered a second time: the handler runs on the store that the first
  delivery left behind, whether that delivery returned or threw.
\<close>

definition delivered_twice :: "(int \<Rightarrow> world \<Rightarrow> outcome) \<Rightarrow> int \<Rightarrow> int \<Rightarrow> world \<Rightarrow> outcome" where
  "delivered_twice h t1 t2 w = h t2 (left_behind (h t1 w))"




section \<open>Concrete stores, environments and logs\<close>

definition env1 :: env where
  "env1 = \<lparr>NODE_ENV = ''development'', BOUNTY_MANAGER_ADDRESS = ''0xAB'',
            INDEXER_START_BLOCK = Some 10, INDEXER_BATCH_SIZE = Some 10\<rparr>"

definition empty_world :: world where
  "empty_world = \<lparr>users = [], bounties = [], submissions = [], hunter_stats = [],
     indexer_state = [], users_seq = 0, bounties_seq = 0, console = [], ticks = 0,
     head_reads = 0, trace = []\<rparr>"

text \<open>A store whose only row is the checkpoint of \<open>env1\<close>, at block \<open>b\<close>.\<close>

definition checkpoint_world :: "int \<Rightarrow> world" where
  "checkpoint_world b = empty_world\<lparr>indexer_state :=
      [\<lparr>is_contract_address = ''0xab'', is_network = ''sepolia'', is_last_block = b,
        is_last_updated = 1\<rparr>]\<rparr>"

definition bounty7 :: "nat \<Rightarrow> bool \<Rightarrow> bounty_row" where
  "bounty7 st act = \<lparr>b_id = 1, b_bounty_id = 7, b_title = Some ''Vault audit'',
     b_company_id = 1,
     b_target_contract_address = ''0xcc'', b_total_reward = 50000, b_remaining_reward = 50000,
     b_lock_amount = 100000, b_status = st, b_deadline = 1000000, b_is_active = act,
     b_payment_token = ''0xdd'', b_block_number = 10, b_tx_hash = ''0x01'',
     b_created_at = 7000, b_updated_at = 1\<rparr>"

definition submission3 :: "nat \<Rightarrow> submission_row" where
  "submission3 st = \<lparr>s_submission_id = 3, s_title = Some ''Reentrancy'', s_bounty_id = 1, s_hunter_id = 2, s_severity = 3,
     s_status = st, s_reward_amount = 0, s_submitted_at = 500000, s_is_paid = False,
     s_block_number = 11, s_tx_hash = ''0x02'', s_paid_at = None, s_updated_at = 2\<rparr>"

text \<open>
  A store with company 0xaa, hunter 0xbb, bounty 7 in status \<open>bst\<close> and submission 3
  in status \<open>sst\<close>.
\<close>

definition market_world :: "nat \<Rightarrow> nat \<Rightarrow> world" where
  "market_world bst sst = (checkpoint_world 40)\<lparr>
     users := [\<lparr>u_id = 1, u_wallet_address = ''0xaa'', u_role = ''company''\<rparr>,
               \<lparr>u_id = 2, u_wallet_address = ''0xbb'', u_role = ''hunter''\<rparr>],
     bounties := [bounty7 bst (bst = 0)],
     submissions := [submission3 sst],
     hunter_stats := [\<lparr>hs_wallet_address = ''0xbb'', hs_total_earned = 0,
                       hs_successful_submissions = 0, hs_total_submissions = 1\<rparr>],
     users_seq := 2, bounties_seq := 1\<rparr>"

text \<open>
  A chain with the given log, on which every bounty and every submission reads the same
  contract state, and whose head is 25 at the first reading and 5 higher at each further
  one.
\<close>

definition chain1 :: "event list \<Rightarrow> chain" where
  "chain1 evs = \<lparr>heads = (\<lambda>k. 25 + 5 * int k), logs = evs,
     bounties_of = (\<lambda>_. \<lparr>targetContract = ''0xCC'', totalReward = 50000,
        remainingReward = 50000, lockAmount = 100000, bd_status = 0, deadline = 1000,
        isActive = True, paymentToken = ''0xDD''\<rparr>),
     submissions_of = (\<lambda>_. \<lparr>sd_severity = 0, sd_status = 1, rewardAmount = 0,
        submittedAt = 500, isPaid = False\<rparr>),
     clock = (\<lambda>k. 100 + int k)\<rparr>"

definition event_at :: "event_args \<Rightarrow> int \<Rightarrow> int \<Rightarrow> event" where
  "event_at a b l = \<lparr>args = a, blockNumber = b, logIndex = l, transactionHash = ''0x0f'',
     blockTimestamp = 7\<rparr>"

text \<open>
  The store of \<open>market_world\<close> with a hunter_stats row of a wallet, 0xee, that has no
  user row.
\<close>

definition stale_stats_world :: world where
  "stale_stats_world = (market_world 0 2)\<lparr>hunter_stats :=
     hunter_stats (market_world 0 2) @
       [\<lparr>hs_wallet_address = ''0xee'', hs_total_earned = 0,
         hs_successful_submissions = 0, hs_total_submissions = 0\<rparr>]\<rparr>"

definition chain_mixed :: chain where
  "chain_mixed =
     chain1 [event_at (SubmissionValidated 3 2 True) 41 0,
             event_at (BountyCompleted 7) 41 1,
             event_at (SubmissionCreated 4 8 ''0xBB'') 42 0]"

definition chain_reward_paid :: "int \<Rightarrow> chain" where
  "chain_reward_paid b = chain1 [event_at (RewardPaid 3 ''0xBB'' 47500) b 0]"

section \<open>Properties\<close>

subsection \<open>Auxiliary facts\<close>

declare last_block_value_def [simp]

lemma lower_0xAB: "toLowerCase ''0xAB'' = ''0xab''"
  by code_simp

lemma env1_key:
  "state_key env1 r \<longleftrightarrow> is_contract_address r = ''0xab'' \<and> is_network r = ''sepolia''"
  by (simp add: state_key_def env1_def lower_0xAB network_def)

lemma state_key_touch [simp]: "state_key e (r\<lparr>is_last_updated := t\<rparr>) = state_key e r"
  by (simp add: state_key_def)

lemma filter_key_touch:
  "filter (state_key e) (map (\<lambda>r. if state_key e r then r\<lparr>is_last_updated := t\<rparr> else r) rs)
   = map (\<lambda>r. r\<lparr>is_last_updated := t\<rparr>) (filter (state_key e) rs)"
  by (induction rs) auto

lemmas fixture_defs =
  market_world_def checkpoint_world_def empty_world_def bounty7_def submission3_def

lemma lower_0xBB: "toLowerCase ''0xBB'' = ''0xbb''"
  by code_simp

lemma lower_0xAA: "toLowerCase ''0xAA'' = ''0xaa''"
  by code_simp

lemmas handler_defs = handleSubmissionCreated_def select_user_def insert_user_def
  insert_hunter_stats_def increment_total_submissions_def upsert_submission_def

lemma select_user_empty_iff:
  "select_user x w = [] \<longleftrightarrow> \<not> list_ex (\<lambda>u. u_wallet_address u = x) (users w)"
  by (auto simp: select_user_def filter_empty_conv list_ex_iff)

lemma filter_nil_list_ex: "filter P xs = [] \<longleftrightarrow> \<not> list_ex P xs"
  by (auto simp: filter_empty_conv list_ex_iff)

lemma left_behind_simps [simp]:
  "left_behind (Inl (err, w)) = w" "left_behind (Inr w) = w"
  by (simp_all add: left_behind_def)

lemma lower_0xEE: "toLowerCase ''0xEE'' = ''0xee''"
  by code_simp

lemma upsert_bounty_null:
  "b_title r = None \<Longrightarrow>
   upsert_bounty now r w
     = Inl (NotNullViolation ''bounties.title'', w\<lparr>bounties_seq := Suc (bounties_seq w)\<rparr>)"
  by (simp add: upsert_bounty_def Let_def)

lemma upsert_submission_null:
  "s_title r = None \<Longrightarrow>
   upsert_submission now r w = Inl (NotNullViolation ''submissions.title'', w)"
  by (simp add: upsert_submission_def)

text \<open>What handleBountyCreated does, in both cases of the company's user row.\<close>

lemma handleBountyCreated_known:
  "select_user (toLowerCase co) w = u # us \<Longrightarrow>
   handleBountyCreated now c ev bid co w
     = Inl (NotNullViolation ''bounties.title'', w\<lparr>bounties_seq := Suc (bounties_seq w)\<rparr>)"
  by (simp add: handleBountyCreated_def upsert_bounty_null Let_def)

lemma handleBountyCreated_new:
  "select_user (toLowerCase co) w = [] \<Longrightarrow>
   handleBountyCreated now c ev bid co w
     = Inl (NotNullViolation ''bounties.title'',
            w\<lparr>users := users w @ [\<lparr>u_id = Suc (users_seq w),
                     u_wallet_address = toLowerCase co, u_role = ''company''\<rparr>],
              users_seq := Suc (users_seq w),
              bounties_seq := Suc (bounties_seq w)\<rparr>)"
proof -
  assume n: "select_user (toLowerCase co) w = []"
  then have "\<not> list_ex (\<lambda>u. u_wallet_address u = toLowerCase co) (users w)"
    by (simp add: select_user_empty_iff)
  with n show ?thesis
    by (simp add: handleBountyCreated_def upsert_bounty_null insert_user_def Let_def)
qed

text \<open>What handleSubmissionCreated does, by the rows it finds.\<close>

lemma handleSubmissionCreated_known:
  "select_user (toLowerCase hunter) w = u # us \<Longrightarrow>
   handleSubmissionCreated now c ev sid bid hunter w
     = (if list_ex (\<lambda>b. b_bounty_id b = bid) (bounties w)
        then Inl (NotNullViolation ''submissions.title'', w)
        else Inr (w\<lparr>console := console w @ [BountyNotFound bid]\<rparr>))"
proof -
  assume u: "select_user (toLowerCase hunter) w = u # us"
  show ?thesis
  proof (cases "filter (\<lambda>b. b_bounty_id b = bid) (bounties w)")
    case Nil
    then have "\<not> list_ex (\<lambda>b. b_bounty_id b = bid) (bounties w)"
      by (simp add: filter_nil_list_ex)
    with Nil u show ?thesis
      by (simp add: handleSubmissionCreated_def Let_def)
  next
    case (Cons b bs)
    then have "list_ex (\<lambda>b. b_bounty_id b = bid) (bounties w)"
      by (metis filter_nil_list_ex list.distinct(1))
    with Cons u show ?thesis
      by (simp add: handleSubmissionCreated_def upsert_submission_null Let_def)
  qed
qed

lemma handleSubmissionCreated_stale_stats:
  "select_user (toLowerCase hunter) w = [] \<Longrightarrow>
   list_ex (\<lambda>h. hs_wallet_address h = toLowerCase hunter) (hunter_stats w) \<Longrightarrow>
   handleSubmissionCreated now c ev sid bid hunter w
     = Inl (UniqueViolation ''hunter_stats_wallet_address_key'',
            w\<lparr>users := users w @ [\<lparr>u_id = Suc (users_seq w),
                     u_wallet_address = toLowerCase hunter, u_role = ''hunter''\<rparr>],
              users_seq := Suc (users_seq w)\<rparr>)"
proof -
  assume n: "select_user (toLowerCase hunter) w = []"
    and s: "list_ex (\<lambda>h. hs_wallet_address h = toLowerCase hunter) (hunter_stats w)"
  from n have "\<not> list_ex (\<lambda>u. u_wallet_address u = toLowerCase hunter) (users w)"
    by (simp add: select_user_empty_iff)
  with n s show ?thesis
    by (simp add: handleSubmissionCreated_def insert_user_def insert_hunter_stats_def Let_def)
qed

lemma handleSubmissionCreated_new:
  "select_user (toLowerCase hunter) w = [] \<Longrightarrow>
   \<not> list_ex (\<lambda>h. hs_wallet_address h = toLowerCase hunter) (hunter_stats w) \<Longrightarrow>
   handleSubmissionCreated now c ev sid bid hunter w
     = (let w2 = w\<lparr>users := users w @ [\<lparr>u_id = Suc (users_seq w),
                     u_wallet_address = toLowerCase hunter, u_role = ''hunter''\<rparr>],
                   users_seq := Suc (users_seq w),
                   hunter_stats := hunter_stats w @ [\<lparr>hs_wallet_address = toLowerCase hunter,
                     hs_total_earned = 0, hs_successful_submissions = 0,
                     hs_total_submissions = 0\<rparr>]\<rparr>
        in if list_ex (\<lambda>b. b_bounty_id b = bid) (bounties w)
           then Inl (NotNullViolation ''submissions.title'', w2)
           else Inr (w2\<lparr>console := console w @ [BountyNotFound bid]\<rparr>))"
proof -
  assume n: "select_user (toLowerCase hunter) w = []"
    and s: "\<not> list_ex (\<lambda>h. hs_wallet_address h = toLowerCase hunter) (hunter_stats w)"
  from n have nu: "\<not> list_ex (\<lambda>u. u_wallet_address u = toLowerCase hunter) (users w)"
    by (simp add: select_user_empty_iff)
  show ?thesis
  proof (cases "filter (\<lambda>b. b_bounty_id b = bid) (bounties w)")
    case Nil
    then have "\<not> list_ex (\<lambda>b. b_bounty_id b = bid) (bounties w)"
      by (simp add: filter_nil_list_ex)
    with Nil n s nu show ?thesis
      by (simp add: handleSubmissionCreated_def insert_user_def insert_hunter_stats_def Let_def)
  next
    case (Cons b bs)
    then have "list_ex (\<lambda>b. b_bounty_id b = bid) (bounties w)"
      by (metis filter_nil_list_ex list.distinct(1))
    with Cons n s nu show ?thesis
      by (simp add: handleSubmissionCreated_def insert_user_def insert_hunter_stats_def
          upsert_submission_null Let_def)
  qed
qed

lemma handle_frame:
  "indexer_state (left_behind (handle now c ev w)) = indexer_state w
   \<and> trace (left_behind (handle now c ev w)) = trace w
   \<and> ticks (left_behind (handle now c ev w)) = ticks w
   \<and> head_reads (left_behind (handle now c ev w)) = head_reads w"
proof (cases "args ev")
  case (BountyCreated bid co tr)
  then show ?thesis
    by (cases "select_user (toLowerCase co) w")
       (simp_all add: handle_def handleBountyCreated_known handleBountyCreated_new)
next
  case (SubmissionCreated sid bid hunter)
  show ?thesis
  proof (cases "select_user (toLowerCase hunter) w")
    case Nil
    with SubmissionCreated show ?thesis
      by (cases "list_ex (\<lambda>h. hs_wallet_address h = toLowerCase hunter) (hunter_stats w)")
         (simp_all add: handle_def handleSubmissionCreated_stale_stats
            handleSubmissionCreated_new Let_def)
  next
    case (Cons u us)
    with SubmissionCreated show ?thesis
      by (simp add: handle_def handleSubmissionCreated_known)
  qed
next
  case (SubmissionValidated sid sev ok)
  then show ?thesis by (simp add: handle_def handleSubmissionValidated_def)
next
  case (RewardPaid sid hunter amount)
  then show ?thesis by (simp add: handle_def handleRewardPaid_def add_earned_def)
next
  case (BountyCompleted bid)
  then show ?thesis by (simp add: handle_def handleBountyCompleted_def)
qed

lemma applyEvent_frame:
  "indexer_state (left_behind (applyEvent c ev w)) = indexer_state w
   \<and> trace (left_behind (applyEvent c ev w)) = trace w @ [Applied ev]
   \<and> ticks (left_behind (applyEvent c ev w)) = Suc (ticks w)"
  using handle_frame [of "clock c (ticks w)" c ev
      "w\<lparr>ticks := Suc (ticks w), trace := trace w @ [Applied ev]\<rparr>"]
  by (simp add: applyEvent_def)

lemma applyEvent_Inr:
  "applyEvent c ev w = Inr w' \<Longrightarrow>
   indexer_state w' = indexer_state w \<and> trace w' = trace w @ [Applied ev]"
  using applyEvent_frame [of c ev w] by simp

lemma applyEvent_Inl:
  "applyEvent c ev w = Inl (err, w') \<Longrightarrow>
   indexer_state w' = indexer_state w \<and> trace w' = trace w @ [Applied ev]"
  using applyEvent_frame [of c ev w] by simp

lemma apply_events_state:
  "indexer_state (left_behind (apply_events c evs w)) = indexer_state w"
proof (induction evs arbitrary: w)
  case Nil
  show ?case by simp
next
  case (Cons ev evs)
  show ?case
  proof (cases "applyEvent c ev w")
    case (Inl x)
    then show ?thesis
      using applyEvent_Inl [of c ev w "fst x" "snd x"] by (cases x) simp
  next
    case (Inr w')
    then show ?thesis
      using Cons.IH [of w'] applyEvent_Inr [OF Inr] by simp
  qed
qed

lemma apply_events_trace:
  "apply_events c evs w = Inr w' \<Longrightarrow> trace w' = trace w @ map Applied evs"
proof (induction evs arbitrary: w)
  case Nil
  then show ?case by simp
next
  case (Cons ev evs)
  then obtain w1 where w1: "applyEvent c ev w = Inr w1" "apply_events c evs w1 = Inr w'"
    by (cases "applyEvent c ev w") auto
  from Cons.IH [OF w1(2)] applyEvent_Inr [OF w1(1)] show ?case by simp
qed

lemma applied_events_append [simp]:
  "applied_events (xs @ ys) = applied_events xs @ applied_events ys"
  by (induction xs rule: applied_events.induct) auto

lemma fetched_append [simp]: "fetched (xs @ ys) = fetched xs @ fetched ys"
  by (induction xs rule: fetched.induct) auto

lemma applied_events_map [simp]: "applied_events (map Applied evs) = evs"
  by (induction evs) auto

lemma fetched_map [simp]: "fetched (map Applied evs) = []"
  by (induction evs) auto

lemma indexEvents_Inr:
  "indexEvents c k f t w = Inr w' \<Longrightarrow>
   indexer_state w' = indexer_state w
   \<and> trace w' = trace w @ Fetched k f t # map Applied (queryFilter c k f t)"
  using apply_events_trace [of c "queryFilter c k f t" "w\<lparr>trace := trace w @ [Fetched k f t]\<rparr>" w']
    apply_events_state [of c "queryFilter c k f t" "w\<lparr>trace := trace w @ [Fetched k f t]\<rparr>"]
  by (simp add: indexEvents_def)

lemma indexEvents_state:
  "indexer_state (left_behind (indexEvents c k f t w)) = indexer_state w"
  using apply_events_state [of c "queryFilter c k f t" "w\<lparr>trace := trace w @ [Fetched k f t]\<rparr>"]
  by (simp add: indexEvents_def)

lemmas index_defs = indexBountyCreatedEvents_def indexSubmissionCreatedEvents_def
  indexSubmissionValidatedEvents_def indexRewardPaidEvents_def indexBountyCompletedEvents_def

lemma index_batch_Inr:
  assumes "index_batch c e f t w = Inr w'"
  shows "trace w' = trace w @ Fetched KBountyCreated f t # map Applied (queryFilter c KBountyCreated f t)
           @ Fetched KSubmissionCreated f t # map Applied (queryFilter c KSubmissionCreated f t)
           @ Fetched KSubmissionValidated f t # map Applied (queryFilter c KSubmissionValidated f t)
           @ Fetched KRewardPaid f t # map Applied (queryFilter c KRewardPaid f t)
           @ Fetched KBountyCompleted f t # map Applied (queryFilter c KBountyCompleted f t)"
    and "indexer_state w' = map (\<lambda>r. if state_key e r then r\<lparr>is_last_block := t,
            is_last_updated := clock c (ticks w' - 1)\<rparr> else r) (indexer_state w)"
proof -
  from assms obtain w1 w2 w3 w4 w5 where
    s: "indexEvents c KBountyCreated f t w = Inr w1"
       "indexEvents c KSubmissionCreated f t w1 = Inr w2"
       "indexEvents c KSubmissionValidated f t w2 = Inr w3"
       "indexEvents c KRewardPaid f t w3 = Inr w4"
       "indexEvents c KBountyCompleted f t w4 = Inr w5"
       and w': "w' = updateLastIndexedBlock (clock c (ticks w5)) e t (w5\<lparr>ticks := Suc (ticks w5)\<rparr>)"
    by (auto simp: index_batch_def and_then_def index_defs split: sum.splits)
  note f = s [THEN indexEvents_Inr]
  show "trace w' = trace w @ Fetched KBountyCreated f t # map Applied (queryFilter c KBountyCreated f t)
           @ Fetched KSubmissionCreated f t # map Applied (queryFilter c KSubmissionCreated f t)
           @ Fetched KSubmissionValidated f t # map Applied (queryFilter c KSubmissionValidated f t)
           @ Fetched KRewardPaid f t # map Applied (queryFilter c KRewardPaid f t)
           @ Fetched KBountyCompleted f t # map Applied (queryFilter c KBountyCompleted f t)"
    using f by (simp add: w' updateLastIndexedBlock_def)
  show "indexer_state w' = map (\<lambda>r. if state_key e r then r\<lparr>is_last_block := t,
            is_last_updated := clock c (ticks w' - 1)\<rparr> else r) (indexer_state w)"
    using f by (simp add: w' updateLastIndexedBlock_def)
qed

lemma index_batch_Inl:
  assumes "index_batch c e f t w = Inl (err, w')"
  shows "indexer_state w' = indexer_state w"
proof -
  have st: "indexEvents c k f t v = Inl (err, w') \<Longrightarrow> indexer_state w' = indexer_state v" for k v
    using indexEvents_state [of c k f t v] by simp
  have sr: "indexEvents c k f t v = Inr v' \<Longrightarrow> indexer_state v' = indexer_state v" for k v v'
    using indexEvents_state [of c k f t v] by simp
  from assms show ?thesis
    by (auto simp: index_batch_def and_then_def index_defs split: sum.splits dest!: st sr)
qed

lemmas batch_defs = index_batch_def and_then_def indexEvents_def queryFilter_def index_defs
  applyEvent_def handle_def chain1_def event_at_def

lemma getLastIndexedBlock_cong:
  "indexer_state w' = indexer_state w \<Longrightarrow> getLastIndexedBlock e w' = getLastIndexedBlock e w"
  by (simp add: getLastIndexedBlock_def)

lemma kind_queryFilter:
  "map (\<lambda>ev. kind_rank (kind_of (args ev))) (queryFilter c k f t)
   = replicate (length (queryFilter c k f t)) (kind_rank k)"
proof -
  have "map (\<lambda>ev. kind_rank (kind_of (args ev)))
          (filter (\<lambda>e. kind_of (args e) = k \<and> f \<le> blockNumber e \<and> blockNumber e \<le> t) xs)
      = replicate (length (filter (\<lambda>e. kind_of (args e) = k \<and> f \<le> blockNumber e
          \<and> blockNumber e \<le> t) xs)) (kind_rank k)" for xs :: "event list"
    by (induction xs) auto
  then show ?thesis by (simp add: queryFilter_def)
qed

lemma sorted_queryFilter:
  "sorted_wrt log_before (logs c) \<Longrightarrow> sorted_wrt log_before (queryFilter c k f t)"
  unfolding queryFilter_def by (rule sorted_wrt_filter)

lemma batch_events_ranks:
  "sorted (map (\<lambda>ev. kind_rank (kind_of (args ev))) (batch_events c f t))"
  by (auto simp: batch_events_def event_kinds_def kind_queryFilter sorted_append)






lemma run_steps_append:
  "run_steps c e (xs @ ys) w = and_then (run_steps c e xs w) (run_steps c e ys)"
  by (induction xs arbitrary: w) (auto simp: and_then_def split: sum.splits)

lemma run_steps_handles: "run_steps c e (map StepHandle evs) w = apply_events c evs w"
  by (induction evs arbitrary: w) (auto split: sum.splits)

lemma run_steps_phase:
  "run_steps c e (StepQuery k f t # map StepHandle (queryFilter c k f t)) w
   = indexEvents c k f t w"
  by (simp add: run_steps_handles indexEvents_def)

lemma index_batch_steps: "index_batch c e f t w = run_steps c e (batch_steps c f t) w"
proof -
  have p: "run_steps c e ((StepQuery k f t # map StepHandle (queryFilter c k f t)) @ ss) v
      = and_then (indexEvents c k f t v) (run_steps c e ss)" for k ss v
    by (simp only: run_steps_append run_steps_phase)
  have l: "run_steps c e [StepCheckpoint t] v
      = Inr (updateLastIndexedBlock (clock c (ticks v)) e t (v\<lparr>ticks := Suc (ticks v)\<rparr>))" for v
    by simp
  have b: "batch_steps c f t =
      (StepQuery KBountyCreated f t # map StepHandle (queryFilter c KBountyCreated f t))
      @ (StepQuery KSubmissionCreated f t # map StepHandle (queryFilter c KSubmissionCreated f t))
      @ (StepQuery KSubmissionValidated f t # map StepHandle (queryFilter c KSubmissionValidated f t))
      @ (StepQuery KRewardPaid f t # map StepHandle (queryFilter c KRewardPaid f t))
      @ (StepQuery KBountyCompleted f t # map StepHandle (queryFilter c KBountyCompleted f t))
      @ [StepCheckpoint t]"
    by (simp add: batch_steps_def event_kinds_def)
  show ?thesis
    unfolding b p l
    by (simp add: index_batch_def index_defs)
qed

lemma run_step_frame:
  "(\<forall>b. s \<noteq> StepCheckpoint b) \<Longrightarrow>
   indexer_state (left_behind (run_step c e s w)) = indexer_state w"
  using applyEvent_frame [of c _ w] by (cases s) simp_all

lemma run_steps_frame:
  "\<forall>s \<in> set ss. \<forall>b. s \<noteq> StepCheckpoint b \<Longrightarrow>
   indexer_state (left_behind (run_steps c e ss w)) = indexer_state w"
proof (induction ss arbitrary: w)
  case Nil
  show ?case by simp
next
  case (Cons s ss)
  then have f: "indexer_state (left_behind (run_step c e s w)) = indexer_state w"
    by (simp add: run_step_frame)
  show ?case
  proof (cases "run_step c e s w")
    case (Inl x)
    with f show ?thesis by (cases x) simp
  next
    case (Inr w')
    with f Cons.IH [of w'] Cons.prems show ?thesis by simp
  qed
qed

lemma batch_steps_front:
  "butlast (batch_steps c f t)
     = concat (map (\<lambda>k. StepQuery k f t # map StepHandle (queryFilter c k f t)) event_kinds)"
  "last (batch_steps c f t) = StepCheckpoint t"
  "\<forall>s \<in> set (butlast (batch_steps c f t)). \<forall>b. s \<noteq> StepCheckpoint b"
  by (auto simp: batch_steps_def butlast_append)

lemma take_butlast_conv: "k < length xs \<Longrightarrow> take k xs = take k (butlast xs)"
  by (simp add: take_butlast)

lemma crash_after_frame:
  assumes "k < length (batch_steps c f t)"
  shows "indexer_state (crash_after k c e f t w) = indexer_state w"
proof -
  have "\<forall>s \<in> set (take k (butlast (batch_steps c f t))). \<forall>b. s \<noteq> StepCheckpoint b"
    using batch_steps_front(3) [of c f t] by (meson in_set_takeD)
  then show ?thesis
    using assms by (simp add: crash_after_def take_butlast_conv run_steps_frame)
qed


lemma handled_append [simp]: "handled (xs @ ys) = handled xs @ handled ys"
  by (induction xs rule: handled.induct) auto

lemma handled_map [simp]: "handled (map StepHandle evs) = evs"
  by (induction evs) auto

lemma handled_batch_steps: "handled (batch_steps c f t) = batch_events c f t"
  by (simp add: batch_steps_def batch_events_def event_kinds_def)

lemma run_step_applied:
  "applied_events (trace (left_behind (run_step c e s w)))
     = applied_events (trace w) @ handled [s]"
  using applyEvent_frame [of c _ w]
  by (cases s) (simp_all add: updateLastIndexedBlock_def)

lemma run_steps_applied_prefix:
  "\<exists>k \<le> length (handled ss).
     applied_events (trace (left_behind (run_steps c e ss w)))
       = applied_events (trace w) @ take k (handled ss)"
proof (induction ss arbitrary: w)
  case Nil
  show ?case by simp
next
  case (Cons s ss)
  note f = run_step_applied [of c e s w]
  show ?case
  proof (cases "run_step c e s w")
    case (Inl x)
    with f have "applied_events (trace (left_behind (run_steps c e (s # ss) w)))
        = applied_events (trace w) @ take (length (handled [s])) (handled (s # ss))"
      by (cases x; cases s) simp_all
    moreover have "length (handled [s]) \<le> length (handled (s # ss))"
      by (cases s) simp_all
    ultimately show ?thesis by blast
  next
    case (Inr w')
    from Cons.IH [of w'] obtain k where k: "k \<le> length (handled ss)"
      "applied_events (trace (left_behind (run_steps c e ss w')))
         = applied_events (trace w') @ take k (handled ss)"
      by blast
    from f Inr have f': "applied_events (trace w') = applied_events (trace w) @ handled [s]"
      by simp
    have "run_steps c e (s # ss) w = run_steps c e ss w'"
      using Inr by simp
    with f' k(2) have "applied_events (trace (left_behind (run_steps c e (s # ss) w)))
        = applied_events (trace w) @ take (length (handled [s]) + k) (handled (s # ss))"
      by (cases s) simp_all
    moreover from k(1) have "length (handled [s]) + k \<le> length (handled (s # ss))"
      by (cases s) simp_all
    ultimately show ?thesis by blast
  qed
qed

lemma index_batch_applied_prefix:
  "\<exists>k \<le> length (batch_events c f t).
     applied_events (trace (left_behind (index_batch c e f t w)))
       = applied_events (trace w) @ take k (batch_events c f t)"
  using run_steps_applied_prefix [of "batch_steps c f t" c e w]
  by (simp add: index_batch_steps handled_batch_steps)


text \<open>What a second delivery of an event does, handler by handler.\<close>

lemma created_twice:
  "users (left_behind (delivered_twice (\<lambda>t. handleBountyCreated t c ev bid co) t1 t2 w))
       = users (left_behind (handleBountyCreated t2 c ev bid co w))
   \<and> bounties (left_behind (delivered_twice (\<lambda>t. handleBountyCreated t c ev bid co) t1 t2 w))
       = bounties (left_behind (handleBountyCreated t2 c ev bid co w))
   \<and> submissions (left_behind (delivered_twice (\<lambda>t. handleBountyCreated t c ev bid co) t1 t2 w))
       = submissions (left_behind (handleBountyCreated t2 c ev bid co w))
   \<and> hunter_stats (left_behind (delivered_twice (\<lambda>t. handleBountyCreated t c ev bid co) t1 t2 w))
       = hunter_stats (left_behind (handleBountyCreated t2 c ev bid co w))
   \<and> indexer_state (left_behind (delivered_twice (\<lambda>t. handleBountyCreated t c ev bid co) t1 t2 w))
       = indexer_state (left_behind (handleBountyCreated t2 c ev bid co w))"
proof (cases "select_user (toLowerCase co) w")
  case Nil
  let ?u = "\<lparr>u_id = Suc (users_seq w), u_wallet_address = toLowerCase co, u_role = ''company''\<rparr>"
  let ?w1 = "w\<lparr>users := users w @ [?u], users_seq := Suc (users_seq w),
                bounties_seq := Suc (bounties_seq w)\<rparr>"
  from Nil have s: "select_user (toLowerCase co) ?w1 = [?u]"
    by (simp add: select_user_def)
  show ?thesis
    by (simp add: delivered_twice_def handleBountyCreated_new [OF Nil]
        handleBountyCreated_known [OF s])
next
  case (Cons u us)
  then have s: "select_user (toLowerCase co) (w\<lparr>bounties_seq := Suc (bounties_seq w)\<rparr>) = u # us"
    by (simp add: select_user_def)
  show ?thesis
    by (simp add: delivered_twice_def handleBountyCreated_known [OF Cons]
        handleBountyCreated_known [OF s])
qed

lemma submitted_twice:
  "users (left_behind (delivered_twice (\<lambda>t. handleSubmissionCreated t c ev sid bid hunter) t1 t2 w))
       = users (left_behind (handleSubmissionCreated t2 c ev sid bid hunter w))
   \<and> bounties (left_behind (delivered_twice (\<lambda>t. handleSubmissionCreated t c ev sid bid hunter) t1 t2 w))
       = bounties (left_behind (handleSubmissionCreated t2 c ev sid bid hunter w))
   \<and> submissions (left_behind (delivered_twice (\<lambda>t. handleSubmissionCreated t c ev sid bid hunter) t1 t2 w))
       = submissions (left_behind (handleSubmissionCreated t2 c ev sid bid hunter w))
   \<and> hunter_stats (left_behind (delivered_twice (\<lambda>t. handleSubmissionCreated t c ev sid bid hunter) t1 t2 w))
       = hunter_stats (left_behind (handleSubmissionCreated t2 c ev sid bid hunter w))
   \<and> indexer_state (left_behind (delivered_twice (\<lambda>t. handleSubmissionCreated t c ev sid bid hunter) t1 t2 w))
       = indexer_state (left_behind (handleSubmissionCreated t2 c ev sid bid hunter w))"
proof (cases "select_user (toLowerCase hunter) w")
  case (Cons u us)
  have s: "select_user (toLowerCase hunter) (w\<lparr>console := k\<rparr>) = u # us" for k
    using Cons by (simp add: select_user_def)
  show ?thesis
    by (cases "list_ex (\<lambda>b. b_bounty_id b = bid) (bounties w)")
       (simp_all add: delivered_twice_def handleSubmissionCreated_known [OF Cons]
          handleSubmissionCreated_known [OF s])
next
  case Nil
  let ?u = "\<lparr>u_id = Suc (users_seq w), u_wallet_address = toLowerCase hunter, u_role = ''hunter''\<rparr>"
  show ?thesis
  proof (cases "list_ex (\<lambda>h. hs_wallet_address h = toLowerCase hunter) (hunter_stats w)")
    case True
    let ?w1 = "w\<lparr>users := users w @ [?u], users_seq := Suc (users_seq w)\<rparr>"
    from Nil have s: "select_user (toLowerCase hunter) ?w1 = [?u]"
      by (simp add: select_user_def)
    show ?thesis
      by (cases "list_ex (\<lambda>b. b_bounty_id b = bid) (bounties w)")
         (simp_all add: delivered_twice_def handleSubmissionCreated_stale_stats [OF Nil True]
            handleSubmissionCreated_known [OF s])
  next
    case False
    let ?h = "\<lparr>hs_wallet_address = toLowerCase hunter, hs_total_earned = 0,
                 hs_successful_submissions = 0, hs_total_submissions = 0\<rparr>"
    let ?w2 = "w\<lparr>users := users w @ [?u], users_seq := Suc (users_seq w),
                  hunter_stats := hunter_stats w @ [?h]\<rparr>"
    from Nil have s: "select_user (toLowerCase hunter) (?w2\<lparr>console := k\<rparr>) = [?u]" for k
      by (simp add: select_user_def)
    from Nil have s': "select_user (toLowerCase hunter) ?w2 = [?u]"
      by (simp add: select_user_def)
    show ?thesis
      by (cases "list_ex (\<lambda>b. b_bounty_id b = bid) (bounties w)")
         (simp_all add: delivered_twice_def handleSubmissionCreated_new [OF Nil False]
            handleSubmissionCreated_known [OF s] handleSubmissionCreated_known [OF s'] Let_def)
  qed
qed

lemma validated_twice:
  "delivered_twice (\<lambda>t. handleSubmissionValidated t sid sev ok) t1 t2 w
   = handleSubmissionValidated t2 sid sev ok w"
proof -
  have "map (\<lambda>s. if s_submission_id s = sid
                then s\<lparr>s_severity := sev, s_status := x, s_updated_at := t2\<rparr> else s)
         (map (\<lambda>s. if s_submission_id s = sid
                then s\<lparr>s_severity := sev, s_status := x, s_updated_at := t1\<rparr> else s) ss)
      = map (\<lambda>s. if s_submission_id s = sid
                then s\<lparr>s_severity := sev, s_status := x, s_updated_at := t2\<rparr> else s) ss"
    for ss :: "submission_row list" and x
    by (induction ss) auto
  then show ?thesis
    by (simp add: delivered_twice_def handleSubmissionValidated_def)
qed

lemma completed_twice:
  "delivered_twice (\<lambda>t. handleBountyCompleted t bid) t1 t2 w = handleBountyCompleted t2 bid w"
proof -
  have "map (\<lambda>b. if b_bounty_id b = bid
                then b\<lparr>b_status := 4, b_is_active := False, b_updated_at := t2\<rparr> else b)
         (map (\<lambda>b. if b_bounty_id b = bid
                then b\<lparr>b_status := 4, b_is_active := False, b_updated_at := t1\<rparr> else b) bs)
      = map (\<lambda>b. if b_bounty_id b = bid
                then b\<lparr>b_status := 4, b_is_active := False, b_updated_at := t2\<rparr> else b) bs"
    for bs :: "bounty_row list"
    by (induction bs) auto
  then show ?thesis
    by (simp add: delivered_twice_def handleBountyCompleted_def)
qed

lemma paid_twice:
  "\<exists>w1 w2. handleRewardPaid t2 sid hunter amount w = Inr w1
     \<and> delivered_twice (\<lambda>t. handleRewardPaid t sid hunter amount) t1 t2 w = Inr w2
     \<and> w2\<lparr>hunter_stats := hunter_stats w1\<rparr> = w1
     \<and> length (hunter_stats w1) = length (hunter_stats w)
     \<and> length (hunter_stats w2) = length (hunter_stats w)
     \<and> (\<forall>i < length (hunter_stats w).
          hunter_stats w1 ! i =
            (if hs_wallet_address (hunter_stats w ! i) = toLowerCase hunter
             then (hunter_stats w ! i)\<lparr>
                    hs_total_earned := hs_total_earned (hunter_stats w ! i) + amount,
                    hs_successful_submissions := hs_successful_submissions (hunter_stats w ! i) + 1\<rparr>
             else hunter_stats w ! i)
        \<and> hunter_stats w2 ! i =
            (if hs_wallet_address (hunter_stats w ! i) = toLowerCase hunter
             then (hunter_stats w ! i)\<lparr>
                    hs_total_earned := hs_total_earned (hunter_stats w ! i) + 2 * amount,
                    hs_successful_submissions := hs_successful_submissions (hunter_stats w ! i) + 2\<rparr>
             else hunter_stats w ! i))"
proof -
  have "map (\<lambda>s. if s_submission_id s = sid
                then s\<lparr>s_is_paid := True, s_reward_amount := amount, s_paid_at := Some t2,
                       s_updated_at := t2\<rparr> else s)
         (map (\<lambda>s. if s_submission_id s = sid
                then s\<lparr>s_is_paid := True, s_reward_amount := amount, s_paid_at := Some t1,
                       s_updated_at := t1\<rparr> else s) ss)
      = map (\<lambda>s. if s_submission_id s = sid
                then s\<lparr>s_is_paid := True, s_reward_amount := amount, s_paid_at := Some t2,
                       s_updated_at := t2\<rparr> else s) ss"
    for ss :: "submission_row list"
    by (induction ss) auto
  then show ?thesis
    by (simp add: delivered_twice_def handleRewardPaid_def add_earned_def)
qed










subsection \<open>Delivering an event twice\<close>

text \<open>
  C1 as stated fails: RewardPaid(3, 0xBB, 47500) delivered twice leaves total_earned at
  95000 and successful_submissions at 2, where one delivery leaves 47500 and 1.
\<close>

theorem duplicate_delivery_counterexample:
  "map hs_total_earned (hunter_stats (left_behind
       (handleRewardPaid 5 3 ''0xBB'' 47500 (market_world 0 2)))) = [47500]
   \<and> map hs_successful_submissions (hunter_stats (left_behind
       (handleRewardPaid 5 3 ''0xBB'' 47500 (market_world 0 2)))) = [1]
   \<and> map hs_total_earned (hunter_stats (left_behind
       (delivered_twice (\<lambda>t. handleRewardPaid t 3 ''0xBB'' 47500) 5 6 (market_world 0 2))))
       = [95000]
   \<and> map hs_successful_submissions (hunter_stats (left_behind
       (delivered_twice (\<lambda>t. handleRewardPaid t 3 ''0xBB'' 47500) 5 6 (market_world 0 2))))
       = [2]"
  by (simp add: delivered_twice_def handleRewardPaid_def add_earned_def fixture_defs lower_0xBB)

text \<open>
  C1, amended. Let an event be delivered at time \<open>t1\<close> and again at time \<open>t2\<close>, the
  second handler call running on the store that the first left behind, whether it
  returned or threw, and the contract state being the same both times.
  \<^item> BountyCreated: the five tables end as after the single delivery at \<open>t2\<close>.
  \<^item> SubmissionCreated: users, bounties, submissions and indexer_state end as after the
    single delivery at \<open>t2\<close>, and so does hunter_stats in every column but
    total_submissions.
  \<^item> SubmissionValidated, BountyCompleted: the second delivery does what the single
    delivery at \<open>t2\<close> does, to the whole store.
  \<^item> RewardPaid: everything but hunter_stats ends as after the single delivery at \<open>t2\<close>;
    in hunter_stats every row of the hunter has total_earned raised by the amount and
    successful_submissions raised by 1 once per delivery, so by twice the amount and by
    2 after the two.
\<close>

theorem second_delivery_effects:
  "(users (left_behind (delivered_twice (\<lambda>t. handleBountyCreated t c ev bid co) t1 t2 w))
       = users (left_behind (handleBountyCreated t2 c ev bid co w))
   \<and> bounties (left_behind (delivered_twice (\<lambda>t. handleBountyCreated t c ev bid co) t1 t2 w))
       = bounties (left_behind (handleBountyCreated t2 c ev bid co w))
   \<and> submissions (left_behind (delivered_twice (\<lambda>t. handleBountyCreated t c ev bid co) t1 t2 w))
       = submissions (left_behind (handleBountyCreated t2 c ev bid co w))
   \<and> hunter_stats (left_behind (delivered_twice (\<lambda>t. handleBountyCreated t c ev bid co) t1 t2 w))
       = hunter_stats (left_behind (handleBountyCreated t2 c ev bid co w))
   \<and> indexer_state (left_behind (delivered_twice (\<lambda>t. handleBountyCreated t c ev bid co) t1 t2 w))
       = indexer_state (left_behind (handleBountyCreated t2 c ev bid co w)))
   \<and> (users (left_behind (delivered_twice (\<lambda>t. handleSubmissionCreated t c ev sid bid hunter) t1 t2 w))
       = users (left_behind (handleSubmissionCreated t2 c ev sid bid hunter w))
   \<and> bounties (left_behind (delivered_twice (\<lambda>t. handleSubmissionCreated t c ev sid bid hunter) t1 t2 w))
       = bounties (left_behind (handleSubmissionCreated t2 c ev sid bid hunter w))
   \<and> submissions (left_behind (delivered_twice (\<lambda>t. handleSubmissionCreated t c ev sid bid hunter) t1 t2 w))
       = submissions (left_behind (handleSubmissionCreated t2 c ev sid bid hunter w))
   \<and> indexer_state (left_behind (delivered_twice (\<lambda>t. handleSubmissionCreated t c ev sid bid hunter) t1 t2 w))
       = indexer_state (left_behind (handleSubmissionCreated t2 c ev sid bid hunter w))
   \<and> map (\<lambda>h. h\<lparr>hs_total_submissions := 0\<rparr>)
         (hunter_stats (left_behind
            (delivered_twice (\<lambda>t. handleSubmissionCreated t c ev sid bid hunter) t1 t2 w)))
       = map (\<lambda>h. h\<lparr>hs_total_submissions := 0\<rparr>)
           (hunter_stats (left_behind (handleSubmissionCreated t2 c ev sid bid hunter w))))
   \<and> delivered_twice (\<lambda>t. handleSubmissionValidated t sid sev ok) t1 t2 w
      = handleSubmissionValidated t2 sid sev ok w
   \<and> delivered_twice (\<lambda>t. handleBountyCompleted t bid) t1 t2 w = handleBountyCompleted t2 bid w
   \<and> (\<exists>w1 w2. handleRewardPaid t2 sid hunter amount w = Inr w1
     \<and> delivered_twice (\<lambda>t. handleRewardPaid t sid hunter amount) t1 t2 w = Inr w2
     \<and> w2\<lparr>hunter_stats := hunter_stats w1\<rparr> = w1
     \<and> length (hunter_stats w1) = length (hunter_stats w)
     \<and> length (hunter_stats w2) = length (hunter_stats w)
     \<and> (\<forall>i < length (hunter_stats w).
          hunter_stats w1 ! i =
            (if hs_wallet_address (hunter_stats w ! i) = toLowerCase hunter
             then (hunter_stats w ! i)\<lparr>
                    hs_total_earned := hs_total_earned (hunter_stats w ! i) + amount,
                    hs_successful_submissions := hs_successful_submissions (hunter_stats w ! i) + 1\<rparr>
             else hunter_stats w ! i)
        \<and> hunter_stats w2 ! i =
            (if hs_wallet_address (hunter_stats w ! i) = toLowerCase hunter
             then (hunter_stats w ! i)\<lparr>
                    hs_total_earned := hs_total_earned (hunter_stats w ! i) + 2 * amount,
                    hs_successful_submissions := hs_successful_submissions (hunter_stats w ! i) + 2\<rparr>
             else hunter_stats w ! i)))"
proof -
  have s: "map (\<lambda>h. h\<lparr>hs_total_submissions := 0\<rparr>)
         (hunter_stats (left_behind
            (delivered_twice (\<lambda>t. handleSubmissionCreated t c ev sid bid hunter) t1 t2 w)))
       = map (\<lambda>h. h\<lparr>hs_total_submissions := 0\<rparr>)
           (hunter_stats (left_behind (handleSubmissionCreated t2 c ev sid bid hunter w)))"
    using submitted_twice [of c ev sid bid hunter t1 t2 w] by simp
  from created_twice [of c ev bid co t1 t2 w] submitted_twice [of c ev sid bid hunter t1 t2 w]
    validated_twice [of sid sev ok t1 t2 w] completed_twice [of bid t1 t2 w]
    paid_twice [of t2 sid hunter amount w t1] s
  show ?thesis by blast
qed

theorem second_delivery_effects_witness:
  "(0::nat) < length (hunter_stats (market_world 0 2))
   \<and> hs_wallet_address (hunter_stats (market_world 0 2) ! 0) = toLowerCase ''0xBB''
   \<and> hs_total_earned (hunter_stats (market_world 0 2) ! 0) = 0
   \<and> (\<exists>w1 w2. handleRewardPaid 6 3 ''0xBB'' 47500 (market_world 0 2) = Inr w1
        \<and> delivered_twice (\<lambda>t. handleRewardPaid t 3 ''0xBB'' 47500) 5 6 (market_world 0 2)
            = Inr w2
        \<and> hs_total_earned (hunter_stats w1 ! 0) = 47500
        \<and> hs_total_earned (hunter_stats w2 ! 0) = 95000)
   \<and> delivered_twice (\<lambda>t. handleSubmissionValidated t 3 1 True) 5 6 (market_world 0 2)
       = handleSubmissionValidated 6 3 1 True (market_world 0 2)"
proof -
  let ?w = "market_world 0 2"
  let ?ev = "event_at (BountyCreated 8 ''0xAA'' 50000) 11 0"
  have l: "(0::nat) < length (hunter_stats ?w)"
    and a: "hs_wallet_address (hunter_stats ?w ! 0) = toLowerCase ''0xBB''"
    and e: "hs_total_earned (hunter_stats ?w ! 0) = 0"
    by (simp_all add: fixture_defs lower_0xBB)
  note T = second_delivery_effects [of "chain1 []" ?ev 8 "''0xAA''" 5 6 ?w 3 "''0xBB''" 1 True
      47500]
  from T have V: "delivered_twice (\<lambda>t. handleSubmissionValidated t 3 1 True) 5 6 ?w
       = handleSubmissionValidated 6 3 1 True ?w"
    by (elim conjE)
  from T have P: "\<exists>w1 w2. handleRewardPaid 6 3 ''0xBB'' 47500 ?w = Inr w1
      \<and> delivered_twice (\<lambda>t. handleRewardPaid t 3 ''0xBB'' 47500) 5 6 ?w = Inr w2
      \<and> w2\<lparr>hunter_stats := hunter_stats w1\<rparr> = w1
      \<and> length (hunter_stats w1) = length (hunter_stats ?w)
      \<and> length (hunter_stats w2) = length (hunter_stats ?w)
      \<and> (\<forall>i < length (hunter_stats ?w).
           hunter_stats w1 ! i =
             (if hs_wallet_address (hunter_stats ?w ! i) = toLowerCase ''0xBB''
              then (hunter_stats ?w ! i)\<lparr>
                     hs_total_earned := hs_total_earned (hunter_stats ?w ! i) + 47500,
                     hs_successful_submissions :=
                       hs_successful_submissions (hunter_stats ?w ! i) + 1\<rparr>
              else hunter_stats ?w ! i)
         \<and> hunter_stats w2 ! i =
             (if hs_wallet_address (hunter_stats ?w ! i) = toLowerCase ''0xBB''
              then (hunter_stats ?w ! i)\<lparr>
                     hs_total_earned := hs_total_earned (hunter_stats ?w ! i) + 2 * 47500,
                     hs_successful_submissions :=
                       hs_successful_submissions (hunter_stats ?w ! i) + 2\<rparr>
              else hunter_stats ?w ! i))"
    by (elim conjE)
  then obtain p1 p2 where p: "handleRewardPaid 6 3 ''0xBB'' 47500 ?w = Inr p1"
      "delivered_twice (\<lambda>t. handleRewardPaid t 3 ''0xBB'' 47500) 5 6 ?w = Inr p2"
      and pi: "\<forall>i < length (hunter_stats ?w).
           hunter_stats p1 ! i =
             (if hs_wallet_address (hunter_stats ?w ! i) = toLowerCase ''0xBB''
              then (hunter_stats ?w ! i)\<lparr>
                     hs_total_earned := hs_total_earned (hunter_stats ?w ! i) + 47500,
                     hs_successful_submissions :=
                       hs_successful_submissions (hunter_stats ?w ! i) + 1\<rparr>
              else hunter_stats ?w ! i)
         \<and> hunter_stats p2 ! i =
             (if hs_wallet_address (hunter_stats ?w ! i) = toLowerCase ''0xBB''
              then (hunter_stats ?w ! i)\<lparr>
                     hs_total_earned := hs_total_earned (hunter_stats ?w ! i) + 2 * 47500,
                     hs_successful_submissions :=
                       hs_successful_submissions (hunter_stats ?w ! i) + 2\<rparr>
              else hunter_stats ?w ! i)"
    by blast
  from pi l a e have pe: "hs_total_earned (hunter_stats p1 ! 0) = 47500"
    "hs_total_earned (hunter_stats p2 ! 0) = 95000"
    by simp_all
  from l a e p pe V show ?thesis by blast
qed

subsection \<open>A batch and its checkpoint\<close>

text \<open>
  C2 as stated fails: the batch of blocks 40 to 49 holds one RewardPaid event, whose
  handler is the fifth call of the loop body; a crash after it leaves total_earned
  raised to 47500 with the checkpoint still at 40, where the whole batch stores 49. The
  batch run again after the restart raises total_earned to 95000.
\<close>

theorem crash_mid_batch_counterexample:
  "batch_steps (chain_reward_paid 41) 40 49
     = [StepQuery KBountyCreated 40 49, StepQuery KSubmissionCreated 40 49,
        StepQuery KSubmissionValidated 40 49, StepQuery KRewardPaid 40 49,
        StepHandle (event_at (RewardPaid 3 ''0xBB'' 47500) 41 0),
        StepQuery KBountyCompleted 40 49, StepCheckpoint 49]
   \<and> map hs_total_earned (hunter_stats (market_world 0 2)) = [0]
   \<and> map hs_total_earned (hunter_stats
        (crash_after 5 (chain_reward_paid 41) env1 40 49 (market_world 0 2))) = [47500]
   \<and> getLastIndexedBlock env1
        (crash_after 5 (chain_reward_paid 41) env1 40 49 (market_world 0 2)) = 40
   \<and> \<not> isl (index_batch (chain_reward_paid 41) env1 40 49 (market_world 0 2))
   \<and> getLastIndexedBlock env1 (projr
        (index_batch (chain_reward_paid 41) env1 40 49 (market_world 0 2))) = 49
   \<and> map hs_total_earned (hunter_stats (projr
        (index_batch (chain_reward_paid 41) env1 40 49
           (crash_after 5 (chain_reward_paid 41) env1 40 49 (market_world 0 2))))) = [95000]"
  by (simp add: crash_after_def batch_steps_def event_kinds_def chain_reward_paid_def batch_defs
      handleRewardPaid_def add_earned_def updateLastIndexedBlock_def getLastIndexedBlock_def
      fixture_defs lower_0xBB env1_key)

text \<open>
  C2, amended. No statement of the indexer runs in a transaction; each call takes
  effect on its own. The loop body is the sequence of its calls, per event type the
  range query and the handler calls, and last the write of the checkpoint, which no
  earlier call makes. A crash after any number of these calls short of all of them, or
  a handler that throws, leaves the checkpoint as it was before the batch, together
  with the projection writes made so far; a batch that returns has applied all the
  events of its range and stored its upper bound in the row of the key. The checkpoint
  is thus never advanced without the batch's projection writes, while projection writes
  can stand without the checkpoint advanced.
\<close>

theorem checkpoint_is_written_last:
  "index_batch c e f t w = run_steps c e (batch_steps c f t) w
   \<and> last (batch_steps c f t) = StepCheckpoint t
   \<and> (\<forall>s \<in> set (butlast (batch_steps c f t)). \<forall>b. s \<noteq> StepCheckpoint b)
   \<and> handled (batch_steps c f t) = batch_events c f t
   \<and> (\<forall>k < length (batch_steps c f t).
         indexer_state (crash_after k c e f t w) = indexer_state w
         \<and> getLastIndexedBlock e (crash_after k c e f t w) = getLastIndexedBlock e w)
   \<and> crash_after (length (batch_steps c f t)) c e f t w = left_behind (index_batch c e f t w)
   \<and> (\<forall>err w'. index_batch c e f t w = Inl (err, w') \<longrightarrow> indexer_state w' = indexer_state w)
   \<and> (\<forall>w'. index_batch c e f t w = Inr w' \<longrightarrow>
         applied_events (trace w') = applied_events (trace w) @ batch_events c f t
         \<and> length (indexer_state w') = length (indexer_state w)
         \<and> (\<forall>r \<in> set (indexer_state w'). state_key e r \<longrightarrow> is_last_block r = t))"
proof -
  have a: "indexer_state (crash_after k c e f t w) = indexer_state w
         \<and> getLastIndexedBlock e (crash_after k c e f t w) = getLastIndexedBlock e w"
    if "k < length (batch_steps c f t)" for k
    using crash_after_frame [OF that, of e w]
      getLastIndexedBlock_cong [OF crash_after_frame [OF that, of e w], of e]
    by simp
  have b: "indexer_state w' = indexer_state w" if "index_batch c e f t w = Inl (err, w')" for err w'
    using that by (rule index_batch_Inl)
  have d: "applied_events (trace w') = applied_events (trace w) @ batch_events c f t
         \<and> length (indexer_state w') = length (indexer_state w)
         \<and> (\<forall>r \<in> set (indexer_state w'). state_key e r \<longrightarrow> is_last_block r = t)"
    if "index_batch c e f t w = Inr w'" for w'
    using index_batch_Inr [OF that]
    by (auto simp: batch_events_def event_kinds_def state_key_def)
  have g: "crash_after (length (batch_steps c f t)) c e f t w = left_behind (index_batch c e f t w)"
    by (simp add: crash_after_def index_batch_steps)
  have p: "\<forall>k < length (batch_steps c f t).
         indexer_state (crash_after k c e f t w) = indexer_state w
         \<and> getLastIndexedBlock e (crash_after k c e f t w) = getLastIndexedBlock e w"
    using a by blast
  have q: "\<forall>err w'. index_batch c e f t w = Inl (err, w') \<longrightarrow> indexer_state w' = indexer_state w"
    using b by blast
  have r: "\<forall>w'. index_batch c e f t w = Inr w' \<longrightarrow>
         applied_events (trace w') = applied_events (trace w) @ batch_events c f t
         \<and> length (indexer_state w') = length (indexer_state w)
         \<and> (\<forall>r \<in> set (indexer_state w'). state_key e r \<longrightarrow> is_last_block r = t)"
    using d by blast
  show ?thesis
    by (intro conjI index_batch_steps batch_steps_front(2) batch_steps_front(3)
        handled_batch_steps p g q r)
qed

theorem checkpoint_is_written_last_witness:
  "(5::nat) < length (batch_steps (chain_reward_paid 41) 40 49)
   \<and> StepQuery KRewardPaid 40 49 \<in> set (butlast (batch_steps (chain_reward_paid 41) 40 49))
   \<and> indexer_state (crash_after 5 (chain_reward_paid 41) env1 40 49 (market_world 0 2))
       = indexer_state (market_world 0 2)
   \<and> hunter_stats (crash_after 5 (chain_reward_paid 41) env1 40 49 (market_world 0 2))
       \<noteq> hunter_stats (market_world 0 2)
   \<and> (\<exists>w'. index_batch (chain_reward_paid 41) env1 40 49 (market_world 0 2) = Inr w'
        \<and> applied_events (trace w') = [event_at (RewardPaid 3 ''0xBB'' 47500) 41 0]
        \<and> (\<exists>r \<in> set (indexer_state w'). state_key env1 r \<and> is_last_block r = 49))"
proof -
  let ?c = "chain_reward_paid 41"
  let ?r = "index_batch ?c env1 40 49 (market_world 0 2)"
  have st: "batch_steps ?c 40 49
     = [StepQuery KBountyCreated 40 49, StepQuery KSubmissionCreated 40 49,
        StepQuery KSubmissionValidated 40 49, StepQuery KRewardPaid 40 49,
        StepHandle (event_at (RewardPaid 3 ''0xBB'' 47500) 41 0),
        StepQuery KBountyCompleted 40 49, StepCheckpoint 49]"
    by (simp add: batch_steps_def event_kinds_def queryFilter_def chain_reward_paid_def
        chain1_def event_at_def)
  have r: "\<not> isl ?r"
    by (simp add: chain_reward_paid_def batch_defs handleRewardPaid_def add_earned_def)
  then obtain w' where w': "?r = Inr w'"
    by (cases ?r) auto
  have t: "trace (market_world 0 2) = []"
    by (simp add: fixture_defs)
  have b: "batch_events ?c 40 49 = [event_at (RewardPaid 3 ''0xBB'' 47500) 41 0]"
    by (simp add: batch_events_def event_kinds_def queryFilter_def chain_reward_paid_def
        chain1_def event_at_def)
  have h: "hunter_stats (crash_after 5 ?c env1 40 49 (market_world 0 2))
       \<noteq> hunter_stats (market_world 0 2)"
    by (simp add: crash_after_def st applyEvent_def handle_def event_at_def handleRewardPaid_def
        add_earned_def fixture_defs lower_0xBB)
  have k: "\<exists>r \<in> set (indexer_state w'). state_key env1 r"
    using w' by (auto simp: chain_reward_paid_def batch_defs handleRewardPaid_def add_earned_def
        updateLastIndexedBlock_def fixture_defs env1_key)
  have n: "(5::nat) < length (batch_steps ?c 40 49)"
    and q: "StepQuery KRewardPaid 40 49 \<in> set (butlast (batch_steps ?c 40 49))"
    by (simp_all add: st)
  note T = checkpoint_is_written_last [of ?c env1 40 49 "market_world 0 2"]
  from T n have a: "indexer_state (crash_after 5 ?c env1 40 49 (market_world 0 2))
       = indexer_state (market_world 0 2)"
    by blast
  from T w' have d: "applied_events (trace w')
        = applied_events (trace (market_world 0 2)) @ batch_events ?c 40 49"
    and s: "\<forall>r \<in> set (indexer_state w'). state_key env1 r \<longrightarrow> is_last_block r = 49"
    by blast+
  from k s have "\<exists>r \<in> set (indexer_state w'). state_key env1 r \<and> is_last_block r = 49"
    by blast
  with w' d a h n q show ?thesis by (simp add: t b)
qed

subsection \<open>Events whose parent row is missing\<close>

text \<open>
  C3 as stated fails: for a SubmissionCreated whose bounty 8 has no row,
  handleSubmissionCreated returns normally; for a SubmissionValidated of the unknown
  submission 9, handleSubmissionValidated returns normally with the store unchanged; a
  batch holding both goes on to the BountyCompleted behind them and to the checkpoint,
  which it advances to the upper bound 49.
\<close>

theorem missing_parent_counterexample:
  "filter (\<lambda>b. b_bounty_id b = 8) (bounties (market_world 0 2)) = []
   \<and> \<not> isl (handleSubmissionCreated 5 (chain1 []) (event_at (SubmissionCreated 4 8 ''0xBB'') 12 0)
              4 8 ''0xBB'' (market_world 0 2))
   \<and> \<not> list_ex (\<lambda>s. s_submission_id s = 9) (submissions (market_world 0 2))
   \<and> handleSubmissionValidated 5 9 1 True (market_world 0 2) = Inr (market_world 0 2)
   \<and> \<not> isl (index_batch
              (chain1 [event_at (SubmissionCreated 4 8 ''0xBB'') 41 0,
                       event_at (SubmissionValidated 9 1 True) 42 0,
                       event_at (BountyCompleted 7) 43 0])
              env1 40 49 (market_world 0 2))
   \<and> getLastIndexedBlock env1 (projr (index_batch
              (chain1 [event_at (SubmissionCreated 4 8 ''0xBB'') 41 0,
                       event_at (SubmissionValidated 9 1 True) 42 0,
                       event_at (BountyCompleted 7) 43 0])
              env1 40 49 (market_world 0 2))) = 49
   \<and> map b_status (bounties (projr (index_batch
              (chain1 [event_at (SubmissionCreated 4 8 ''0xBB'') 41 0,
                       event_at (SubmissionValidated 9 1 True) 42 0,
                       event_at (BountyCompleted 7) 43 0])
              env1 40 49 (market_world 0 2)))) = [4]"
  by (simp add: handler_defs fixture_defs lower_0xBB Let_def handleSubmissionValidated_def
      handleBountyCompleted_def index_batch_def and_then_def indexEvents_def queryFilter_def
      indexBountyCreatedEvents_def indexSubmissionCreatedEvents_def
      indexSubmissionValidatedEvents_def indexRewardPaidEvents_def indexBountyCompletedEvents_def
      applyEvent_def handle_def chain1_def event_at_def getLastIndexedBlock_def
      updateLastIndexedBlock_def env1_key)

text \<open>
  C3, amended. A SubmissionCreated whose bountyId has no Bounty row is not reported as
  an error. handleSubmissionCreated first gets or creates the hunter's user and
  statistics rows. When the hunter has a user row, or has neither a user row nor a
  hunter_stats row, the handler then writes one console line and returns normally, and
  the loop over the events goes on with the next event. When the hunter has no user row
  but has a hunter_stats row, the handler throws the unique violation of its INSERT
  INTO hunter_stats, before it looks for the bounty. In every case submissions,
  bounties and the checkpoint are left as they were: no Submission row is created. A
  SubmissionValidated whose submissionId has no row is not an error either:
  handleSubmissionValidated returns normally with the store unchanged, and the loop goes
  on with the next event.
\<close>

theorem missing_parent_is_skipped:
  assumes nb: "\<not> list_ex (\<lambda>b. b_bounty_id b = bid) (bounties w)"
    and ns: "\<not> list_ex (\<lambda>s. s_submission_id s = sid') (submissions w)"
    and e1: "args ev = SubmissionCreated sid bid hunter"
    and e2: "args ev' = SubmissionValidated sid' sev valid"
  shows "submissions (left_behind (handleSubmissionCreated now c ev sid bid hunter w))
           = submissions w
       \<and> bounties (left_behind (handleSubmissionCreated now c ev sid bid hunter w)) = bounties w
       \<and> indexer_state (left_behind (handleSubmissionCreated now c ev sid bid hunter w))
           = indexer_state w
       \<and> (select_user (toLowerCase hunter) w \<noteq> []
            \<or> \<not> list_ex (\<lambda>h. hs_wallet_address h = toLowerCase hunter) (hunter_stats w) \<longrightarrow>
          (\<exists>w'. handleSubmissionCreated now c ev sid bid hunter w = Inr w'
             \<and> console w' = console w @ [BountyNotFound bid])
          \<and> (\<exists>w'. applyEvent c ev w = Inr w' \<and> submissions w' = submissions w
             \<and> apply_events c (ev # evs) w = apply_events c evs w'))
       \<and> (select_user (toLowerCase hunter) w = []
            \<and> list_ex (\<lambda>h. hs_wallet_address h = toLowerCase hunter) (hunter_stats w) \<longrightarrow>
          (\<exists>w'. handleSubmissionCreated now c ev sid bid hunter w
                   = Inl (UniqueViolation ''hunter_stats_wallet_address_key'', w')
             \<and> console w' = console w))
       \<and> handleSubmissionValidated now sid' sev valid w = Inr w
       \<and> apply_events c (ev' # evs) w
           = apply_events c evs (w\<lparr>ticks := Suc (ticks w), trace := trace w @ [Applied ev']\<rparr>)"
proof -
  let ?w = "w\<lparr>ticks := Suc (ticks w), trace := trace w @ [Applied ev]\<rparr>"
  have r: "(select_user (toLowerCase hunter) v \<noteq> []
            \<or> \<not> list_ex (\<lambda>h. hs_wallet_address h = toLowerCase hunter) (hunter_stats v) \<longrightarrow>
          (\<exists>w'. handleSubmissionCreated t c ev sid bid hunter v = Inr w'
             \<and> console w' = console v @ [BountyNotFound bid] \<and> submissions w' = submissions v))
       \<and> (select_user (toLowerCase hunter) v = []
            \<and> list_ex (\<lambda>h. hs_wallet_address h = toLowerCase hunter) (hunter_stats v) \<longrightarrow>
          (\<exists>w'. handleSubmissionCreated t c ev sid bid hunter v
                   = Inl (UniqueViolation ''hunter_stats_wallet_address_key'', w')
             \<and> console w' = console v))
       \<and> submissions (left_behind (handleSubmissionCreated t c ev sid bid hunter v))
           = submissions v
       \<and> bounties (left_behind (handleSubmissionCreated t c ev sid bid hunter v)) = bounties v
       \<and> indexer_state (left_behind (handleSubmissionCreated t c ev sid bid hunter v))
           = indexer_state v"
    if nbv: "\<not> list_ex (\<lambda>b. b_bounty_id b = bid) (bounties v)" for v t
  proof (cases "select_user (toLowerCase hunter) v")
    case (Cons u us)
    with nbv show ?thesis
      by (simp add: handleSubmissionCreated_known [OF Cons])
  next
    case Nil
    show ?thesis
    proof (cases "list_ex (\<lambda>h. hs_wallet_address h = toLowerCase hunter) (hunter_stats v)")
      case True
      with Nil show ?thesis
        by (simp add: handleSubmissionCreated_stale_stats [OF Nil True])
    next
      case False
      with Nil nbv show ?thesis
        by (simp add: handleSubmissionCreated_new [OF Nil False] Let_def)
    qed
  qed
  have m: "map (\<lambda>s. if s_submission_id s = sid'
                       then s\<lparr>s_severity := sev, s_status := (if valid then 2 else 3),
                              s_updated_at := t\<rparr>
                       else s) ss = ss" if "\<not> list_ex (\<lambda>s. s_submission_id s = sid') ss"
    for ss :: "submission_row list" and t
    using that by (induction ss) auto
  have b: "handleSubmissionValidated t sid' sev valid v = Inr v"
    if "submissions v = submissions w" for v t
    using ns that by (simp add: handleSubmissionValidated_def m)
  have nb': "\<not> list_ex (\<lambda>b. b_bounty_id b = bid) (bounties ?w)"
    using nb by simp
  have k: "select_user (toLowerCase hunter) ?w = select_user (toLowerCase hunter) w"
    "hunter_stats ?w = hunter_stats w" "submissions ?w = submissions w"
    by (simp_all add: select_user_def)
  have a: "\<exists>w'. applyEvent c ev w = Inr w' \<and> submissions w' = submissions w
             \<and> apply_events c (ev # evs) w = apply_events c evs w'"
    if "select_user (toLowerCase hunter) w \<noteq> []
            \<or> \<not> list_ex (\<lambda>h. hs_wallet_address h = toLowerCase hunter) (hunter_stats w)"
  proof -
    from r [OF nb', of "clock c (ticks w)"] that k
    obtain w' where "handleSubmissionCreated (clock c (ticks w)) c ev sid bid hunter ?w = Inr w'"
      "submissions w' = submissions w"
      by auto
    then show ?thesis
      by (simp add: applyEvent_def handle_def e1)
  qed
  have d: "apply_events c (ev' # evs) w
           = apply_events c evs (w\<lparr>ticks := Suc (ticks w), trace := trace w @ [Applied ev']\<rparr>)"
    by (simp add: applyEvent_def handle_def e2 b)
  from r [OF nb, of now] a b [of w now] d show ?thesis by blast
qed

theorem missing_parent_is_skipped_witness:
  "\<not> list_ex (\<lambda>b. b_bounty_id b = 8) (bounties (market_world 0 2))
   \<and> select_user (toLowerCase ''0xBB'') (market_world 0 2) \<noteq> []
   \<and> \<not> list_ex (\<lambda>s. s_submission_id s = 9) (submissions (market_world 0 2))
   \<and> (\<exists>w'. handleSubmissionCreated 5 (chain1 []) (event_at (SubmissionCreated 4 8 ''0xBB'') 41 0)
              4 8 ''0xBB'' (market_world 0 2) = Inr w'
          \<and> console w' = [BountyNotFound 8])
   \<and> submissions (left_behind (handleSubmissionCreated 5 (chain1 [])
         (event_at (SubmissionCreated 4 8 ''0xBB'') 41 0) 4 8 ''0xBB'' (market_world 0 2)))
       = [submission3 2]
   \<and> handleSubmissionValidated 5 9 1 True (market_world 0 2) = Inr (market_world 0 2)
   \<and> select_user (toLowerCase ''0xEE'') (stale_stats_world) = []
   \<and> list_ex (\<lambda>h. hs_wallet_address h = toLowerCase ''0xEE'') (hunter_stats stale_stats_world)
   \<and> (\<exists>w'. handleSubmissionCreated 5 (chain1 []) (event_at (SubmissionCreated 4 8 ''0xEE'') 41 0)
              4 8 ''0xEE'' stale_stats_world
            = Inl (UniqueViolation ''hunter_stats_wallet_address_key'', w')
          \<and> console w' = [])"
proof -
  have nb: "\<not> list_ex (\<lambda>b. b_bounty_id b = 8) (bounties (market_world 0 2))"
    by (simp add: fixture_defs)
  have u: "select_user (toLowerCase ''0xBB'') (market_world 0 2) \<noteq> []"
    by (simp add: select_user_def fixture_defs lower_0xBB)
  have ns: "\<not> list_ex (\<lambda>s. s_submission_id s = 9) (submissions (market_world 0 2))"
    by (simp add: fixture_defs)
  have e1: "args (event_at (SubmissionCreated 4 8 ''0xBB'') 41 0) = SubmissionCreated 4 8 ''0xBB''"
    "args (event_at (SubmissionCreated 4 8 ''0xEE'') 41 0) = SubmissionCreated 4 8 ''0xEE''"
    by (simp_all add: event_at_def)
  have e2: "args (event_at (SubmissionValidated 9 1 True) 42 0) = SubmissionValidated 9 1 True"
    by (simp add: event_at_def)
  have s: "submissions (market_world 0 2) = [submission3 2]"
    and k: "console (market_world 0 2) = []"
    by (simp_all add: market_world_def checkpoint_world_def empty_world_def)
  have nb2: "\<not> list_ex (\<lambda>b. b_bounty_id b = 8) (bounties stale_stats_world)"
    and ns2: "\<not> list_ex (\<lambda>s. s_submission_id s = 9) (submissions stale_stats_world)"
    and u2: "select_user (toLowerCase ''0xEE'') stale_stats_world = []"
    and h2: "list_ex (\<lambda>h. hs_wallet_address h = toLowerCase ''0xEE'') (hunter_stats stale_stats_world)"
    and k2: "console stale_stats_world = []"
    by (simp_all add: stale_stats_world_def select_user_def fixture_defs lower_0xEE)
  note T1 = missing_parent_is_skipped [OF nb ns e1(1) e2, of 5 "chain1 []" "[]"]
  note T2 = missing_parent_is_skipped [OF nb2 ns2 e1(2) e2, of 5 "chain1 []" "[]"]
  from T1 u have a: "\<exists>w'. handleSubmissionCreated 5 (chain1 [])
         (event_at (SubmissionCreated 4 8 ''0xBB'') 41 0) 4 8 ''0xBB'' (market_world 0 2) = Inr w'
          \<and> console w' = console (market_world 0 2) @ [BountyNotFound 8]"
    by blast
  from T1 have b: "submissions (left_behind (handleSubmissionCreated 5 (chain1 [])
         (event_at (SubmissionCreated 4 8 ''0xBB'') 41 0) 4 8 ''0xBB'' (market_world 0 2)))
       = submissions (market_world 0 2)"
    and v: "handleSubmissionValidated 5 9 1 True (market_world 0 2) = Inr (market_world 0 2)"
    by blast+
  from T2 u2 h2 have d: "\<exists>w'. handleSubmissionCreated 5 (chain1 [])
         (event_at (SubmissionCreated 4 8 ''0xEE'') 41 0) 4 8 ''0xEE'' stale_stats_world
            = Inl (UniqueViolation ''hunter_stats_wallet_address_key'', w')
          \<and> console w' = console stale_stats_world"
    by blast
  from nb u ns a b v u2 h2 d show ?thesis
    by (simp add: s k k2)
qed

subsection \<open>Writing the checkpoint\<close>

text \<open>
  C4 as stated fails: with block 40 stored, updateLastIndexedBlock with block 5 does not
  fail and the stored block is 5 afterwards.
\<close>

theorem updateLastIndexedBlock_backward_counterexample:
  "getLastIndexedBlock env1 (checkpoint_world 40) = 40
   \<and> getLastIndexedBlock env1 (updateLastIndexedBlock 2 env1 5 (checkpoint_world 40)) = 5"
  by (simp add: getLastIndexedBlock_def updateLastIndexedBlock_def checkpoint_world_def
      empty_world_def env1_key)

text \<open>
  C4, amended. updateLastIndexedBlock never fails and never compares: whatever block is
  stored, every row of the key holds the new block afterwards, the other rows and
  tables are untouched, and getLastIndexedBlock then reads the new block (or the start
  block when the new block is 0 or the key has no row).
\<close>

theorem updateLastIndexedBlock_overwrites:
  "length (indexer_state (updateLastIndexedBlock now e blk w)) = length (indexer_state w)
   \<and> (\<forall>r \<in> set (indexer_state (updateLastIndexedBlock now e blk w)).
         state_key e r \<longrightarrow> is_last_block r = blk)
   \<and> filter (\<lambda>r. \<not> state_key e r) (indexer_state (updateLastIndexedBlock now e blk w))
       = filter (\<lambda>r. \<not> state_key e r) (indexer_state w)
   \<and> (updateLastIndexedBlock now e blk w)\<lparr>indexer_state := indexer_state w\<rparr> = w
   \<and> getLastIndexedBlock e (updateLastIndexedBlock now e blk w)
       = (if list_ex (state_key e) (indexer_state w) \<and> blk \<noteq> 0 then blk else start_block e)"
proof -
  let ?f = "\<lambda>r. if state_key e r then r\<lparr>is_last_block := blk, is_last_updated := now\<rparr> else r"
  have rows: "indexer_state (updateLastIndexedBlock now e blk w) = map ?f (indexer_state w)"
    by (simp add: updateLastIndexedBlock_def)
  have a: "length (indexer_state (updateLastIndexedBlock now e blk w)) = length (indexer_state w)"
    by (simp add: rows)
  have b: "\<forall>r \<in> set (indexer_state (updateLastIndexedBlock now e blk w)).
         state_key e r \<longrightarrow> is_last_block r = blk"
    unfolding rows by (auto simp: state_key_def)
  have c0: "filter (\<lambda>r. \<not> state_key e r) (map ?f rs) = filter (\<lambda>r. \<not> state_key e r) rs" for rs
    by (induction rs) (auto simp: state_key_def)
  have c: "filter (\<lambda>r. \<not> state_key e r) (indexer_state (updateLastIndexedBlock now e blk w))
       = filter (\<lambda>r. \<not> state_key e r) (indexer_state w)"
    unfolding rows by (rule c0)
  have d: "(updateLastIndexedBlock now e blk w)\<lparr>indexer_state := indexer_state w\<rparr> = w"
    by (simp add: updateLastIndexedBlock_def)
  have f: "filter (state_key e) (map ?f rs)
        = map (\<lambda>r. r\<lparr>is_last_block := blk, is_last_updated := now\<rparr>) (filter (state_key e) rs)" for rs
    by (induction rs) (auto simp: state_key_def)
  have g: "getLastIndexedBlock e (updateLastIndexedBlock now e blk w)
       = (if list_ex (state_key e) (indexer_state w) \<and> blk \<noteq> 0 then blk else start_block e)"
    unfolding getLastIndexedBlock_def rows f
    by (cases "filter (state_key e) (indexer_state w)")
       (auto simp: list_ex_iff filter_empty_conv dest: filter_eq_ConsD)
  from a b c d g show ?thesis by blast
qed

theorem updateLastIndexedBlock_overwrites_witness:
  "(\<exists>r \<in> set (indexer_state (updateLastIndexedBlock 2 env1 5 (checkpoint_world 40))).
      state_key env1 r \<and> is_last_block r = 5)
   \<and> list_ex (state_key env1) (indexer_state (checkpoint_world 40))
   \<and> getLastIndexedBlock env1 (updateLastIndexedBlock 2 env1 5 (checkpoint_world 40)) = 5"
proof -
  have h: "list_ex (state_key env1) (indexer_state (checkpoint_world 40))"
    by (simp add: checkpoint_world_def empty_world_def env1_key)
  have r: "\<exists>r \<in> set (indexer_state (updateLastIndexedBlock 2 env1 5 (checkpoint_world 40))).
      state_key env1 r"
    by (simp add: updateLastIndexedBlock_def checkpoint_world_def empty_world_def env1_key)
  from updateLastIndexedBlock_overwrites [of 2 env1 5 "checkpoint_world 40"] h r
  show ?thesis by auto
qed

subsection \<open>Status writes\<close>

text \<open>
  C5 as stated fails: a submission already Valid (2) is set to Invalid (3) by a
  SubmissionValidated event with isValid false, and a bounty already Cancelled (5) is
  set to Completed (4) by BountyCompleted; neither handler rejects anything.
\<close>

theorem status_backward_counterexample:
  "map s_status (submissions (market_world 0 2)) = [2]
   \<and> \<not> isl (handleSubmissionValidated 5 3 1 False (market_world 0 2))
   \<and> map s_status (submissions (projr (handleSubmissionValidated 5 3 1 False (market_world 0 2))))
       = [3]
   \<and> map b_status (bounties (market_world 5 2)) = [5]
   \<and> \<not> isl (handleBountyCompleted 5 7 (market_world 5 2))
   \<and> map b_status (bounties (projr (handleBountyCompleted 5 7 (market_world 5 2)))) = [4]"
  by (simp add: handleSubmissionValidated_def handleBountyCompleted_def fixture_defs)

text \<open>
  C5, amended. handleSubmissionValidated returns normally and writes severity, status
  (2 when isValid, else 3) and updated_at into every row of the submission id, whatever
  status the row had; handleBountyCompleted returns normally and writes status 4 and
  is_active false into every row of the bounty id, whatever status the row had. All other
  rows and tables are untouched.
\<close>

theorem status_written_whatever_it_was:
  "(\<exists>w'. handleSubmissionValidated now sid sev ok w = Inr w'
        \<and> w'\<lparr>submissions := submissions w\<rparr> = w
        \<and> length (submissions w') = length (submissions w)
        \<and> (\<forall>i < length (submissions w).
              submissions w' ! i =
                (if s_submission_id (submissions w ! i) = sid
                 then (submissions w ! i)\<lparr>s_severity := sev,
                        s_status := (if ok then 2 else 3), s_updated_at := now\<rparr>
                 else submissions w ! i)))
   \<and> (\<exists>w'. handleBountyCompleted now bid w = Inr w'
        \<and> w'\<lparr>bounties := bounties w\<rparr> = w
        \<and> length (bounties w') = length (bounties w)
        \<and> (\<forall>i < length (bounties w).
              bounties w' ! i =
                (if b_bounty_id (bounties w ! i) = bid
                 then (bounties w ! i)\<lparr>b_status := 4, b_is_active := False, b_updated_at := now\<rparr>
                 else bounties w ! i)))"
  by (simp add: handleSubmissionValidated_def handleBountyCompleted_def)

theorem status_written_whatever_it_was_witness:
  "(\<exists>w'. handleSubmissionValidated 5 3 1 False (market_world 0 2) = Inr w'
        \<and> (0::nat) < length (submissions (market_world 0 2))
        \<and> s_status (submissions (market_world 0 2) ! 0) = 2
        \<and> s_status (submissions w' ! 0) = 3)
   \<and> (\<exists>w'. handleBountyCompleted 5 7 (market_world 5 2) = Inr w'
        \<and> (0::nat) < length (bounties (market_world 5 2))
        \<and> b_status (bounties (market_world 5 2) ! 0) = 5
        \<and> b_status (bounties w' ! 0) = 4)"
  using status_written_whatever_it_was [of 5 3 1 False "market_world 0 2" 7]
    status_written_whatever_it_was [of 5 3 1 False "market_world 5 2" 7]
  by (auto simp: fixture_defs)

subsection \<open>The block ranges of the backfill\<close>




subsection \<open>The order of application within a batch\<close>

text \<open>
  C7 as stated fails: the log holds, in ascending (blockNumber, logIndex) order, a
  SubmissionValidated and a BountyCompleted of block 41 and a SubmissionCreated of block
  42; the batch applies the SubmissionCreated of block 42 first.
\<close>

theorem batch_order_counterexample:
  "sorted_wrt log_before (logs chain_mixed)
   \<and> \<not> isl (index_batch chain_mixed env1 40 49 (market_world 0 2))
   \<and> map blockNumber (applied_events (trace (projr
        (index_batch chain_mixed env1 40 49 (market_world 0 2))))) = [42, 41, 41]"
  by (simp add: chain_mixed_def batch_defs log_before_def handleBountyCompleted_def
      handleSubmissionValidated_def handler_defs
      updateLastIndexedBlock_def fixture_defs lower_0xBB Let_def)

text \<open>
  C7, amended. The events of a batch are handed to their handlers grouped by event
  type, in the fixed order BountyCreated, SubmissionCreated, SubmissionValidated,
  RewardPaid, BountyCompleted, and within one type in the order of the log (ascending
  (blockNumber, logIndex) when the log is); the order across types is not the log's. A
  batch that returns has applied all the events of its block range in that order; a
  batch in which a handler throws has applied an initial part of it. In particular
  every SubmissionCreated of the batch comes before every SubmissionValidated of the
  batch.
\<close>

theorem batch_applies_type_by_type:
  "(\<exists>k \<le> length (batch_events c f t).
       applied_events (trace (left_behind (index_batch c e f t w)))
         = applied_events (trace w) @ take k (batch_events c f t))
   \<and> (\<forall>w'. index_batch c e f t w = Inr w' \<longrightarrow>
         applied_events (trace w') = applied_events (trace w) @ batch_events c f t)
   \<and> batch_events c f t =
       queryFilter c KBountyCreated f t @ queryFilter c KSubmissionCreated f t
       @ queryFilter c KSubmissionValidated f t @ queryFilter c KRewardPaid f t
       @ queryFilter c KBountyCompleted f t
   \<and> (sorted_wrt log_before (logs c) \<longrightarrow>
        (\<forall>k. sorted_wrt log_before (queryFilter c k f t)))
   \<and> sorted (map (\<lambda>ev. kind_rank (kind_of (args ev))) (batch_events c f t))
   \<and> (\<forall>i j. i < length (batch_events c f t) \<and> j < length (batch_events c f t)
          \<and> kind_of (args (batch_events c f t ! i)) = KSubmissionCreated
          \<and> kind_of (args (batch_events c f t ! j)) = KSubmissionValidated
        \<longrightarrow> i < j)"
proof -
  let ?B = "batch_events c f t"
  let ?r = "\<lambda>ev. kind_rank (kind_of (args ev))"
  have a: "applied_events (trace w') = applied_events (trace w) @ ?B"
    if "index_batch c e f t w = Inr w'" for w'
    using index_batch_Inr(1) [OF that] by (simp add: batch_events_def event_kinds_def)
  have b: "?B = queryFilter c KBountyCreated f t @ queryFilter c KSubmissionCreated f t
           @ queryFilter c KSubmissionValidated f t @ queryFilter c KRewardPaid f t
           @ queryFilter c KBountyCompleted f t"
    by (simp add: batch_events_def event_kinds_def)
  have s: "sorted (map ?r ?B)"
    by (rule batch_events_ranks)
  have o: "i < j" if ij: "i < length ?B" "j < length ?B"
      and ki: "kind_of (args (?B ! i)) = KSubmissionCreated"
      and kj: "kind_of (args (?B ! j)) = KSubmissionValidated" for i j
  proof (rule ccontr)
    assume "\<not> i < j"
    then have "j \<le> i" by simp
    with s ij have "map ?r ?B ! j \<le> map ?r ?B ! i"
      by (simp add: sorted_iff_nth_mono)
    with ij ki kj show False by simp
  qed
  from index_batch_applied_prefix [of c f t e w] a b s o sorted_queryFilter [of c]
  show ?thesis by blast
qed

theorem batch_applies_type_by_type_witness:
  "\<not> isl (index_batch chain_mixed env1 40 49 (market_world 0 2))
   \<and> sorted_wrt log_before (logs chain_mixed)
   \<and> batch_events chain_mixed 40 49
       = [event_at (SubmissionCreated 4 8 ''0xBB'') 42 0,
          event_at (SubmissionValidated 3 2 True) 41 0,
          event_at (BountyCompleted 7) 41 1]
   \<and> applied_events (trace (projr (index_batch chain_mixed env1 40 49 (market_world 0 2))))
       = batch_events chain_mixed 40 49
   \<and> kind_of (args (batch_events chain_mixed 40 49 ! 0)) = KSubmissionCreated
   \<and> kind_of (args (batch_events chain_mixed 40 49 ! 1)) = KSubmissionValidated
   \<and> sorted_wrt log_before (queryFilter chain_mixed KSubmissionCreated 40 49)"
proof -
  let ?r = "index_batch chain_mixed env1 40 49 (market_world 0 2)"
  have r: "\<not> isl ?r"
    by (simp add: chain_mixed_def batch_defs handleBountyCompleted_def
      handleSubmissionValidated_def handler_defs
      updateLastIndexedBlock_def fixture_defs lower_0xBB Let_def)
  then obtain w' where w': "?r = Inr w'"
    by (cases ?r) auto
  have t: "trace (market_world 0 2) = []"
    by (simp add: fixture_defs)
  have l: "sorted_wrt log_before (logs chain_mixed)"
    by (simp add: chain_mixed_def chain1_def event_at_def log_before_def)
  have b: "batch_events chain_mixed 40 49
       = [event_at (SubmissionCreated 4 8 ''0xBB'') 42 0,
          event_at (SubmissionValidated 3 2 True) 41 0,
          event_at (BountyCompleted 7) 41 1]"
    by (simp add: batch_events_def event_kinds_def queryFilter_def
        chain_mixed_def chain1_def event_at_def)
  have k: "kind_of (args (event_at (SubmissionCreated 4 8 ''0xBB'') 42 0)) = KSubmissionCreated"
    "kind_of (args (event_at (SubmissionValidated 3 2 True) 41 0)) = KSubmissionValidated"
    by (simp_all add: event_at_def)
  note T = batch_applies_type_by_type [of chain_mixed 40 49 env1 "market_world 0 2"]
  from T w' have a: "applied_events (trace w')
      = applied_events (trace (market_world 0 2)) @ batch_events chain_mixed 40 49"
    by blast
  from T l have s: "sorted_wrt log_before (queryFilter chain_mixed KSubmissionCreated 40 49)"
    by blast
  from a s w' t l r show ?thesis
    by (simp add: b k)
qed

subsection \<open>Real-time indexing\<close>

text \<open>
  C8 as stated fails: with the checkpoint at block 40, a RewardPaid event of block 100
  that arrives at the listener is applied (total_earned becomes 47500) and the stored
  checkpoint is still 40 afterwards.
\<close>

theorem streaming_checkpoint_counterexample:
  "blockNumber (event_at (RewardPaid 3 ''0xBB'' 47500) 100 0) = 100
   \<and> \<not> isl (startRealtimeIndexing (chain_reward_paid 100) (logs (chain_reward_paid 100))
             (market_world 0 2))
   \<and> map hs_total_earned (hunter_stats (projr
        (startRealtimeIndexing (chain_reward_paid 100) (logs (chain_reward_paid 100))
             (market_world 0 2)))) = [47500]
   \<and> getLastIndexedBlock env1 (market_world 0 2) = 40
   \<and> getLastIndexedBlock env1 (projr
        (startRealtimeIndexing (chain_reward_paid 100) (logs (chain_reward_paid 100))
             (market_world 0 2))) = 40"
  by (simp add: startRealtimeIndexing_def chain_reward_paid_def batch_defs handleRewardPaid_def
      add_earned_def fixture_defs lower_0xBB getLastIndexedBlock_def env1_key)

text \<open>
  C8, amended. In real-time mode every arriving event is handed on its own to the
  handler of its type, the same that the range queries use; nothing is buffered or
  grouped into a batch, no range is queried, and the stored checkpoint is left as it
  was: neither indexer_state nor what getLastIndexedBlock reads changes, however many
  events arrive.
\<close>

theorem streaming_applies_each_event_alone:
  "indexer_state (left_behind (startRealtimeIndexing c arriving w)) = indexer_state w
   \<and> getLastIndexedBlock e (left_behind (startRealtimeIndexing c arriving w))
       = getLastIndexedBlock e w
   \<and> startRealtimeIndexing c [] w = Inr w
   \<and> startRealtimeIndexing c (ev # arriving) w
       = and_then (applyEvent c ev w) (startRealtimeIndexing c arriving)
   \<and> (\<forall>w'. startRealtimeIndexing c arriving w = Inr w' \<longrightarrow>
         trace w' = trace w @ map Applied arriving \<and> fetched (trace w') = fetched (trace w))"
proof -
  have a: "indexer_state (left_behind (startRealtimeIndexing c arriving w)) = indexer_state w"
    by (simp add: startRealtimeIndexing_def apply_events_state)
  have b: "startRealtimeIndexing c (ev # arriving) w
       = and_then (applyEvent c ev w) (startRealtimeIndexing c arriving)"
    by (auto simp: startRealtimeIndexing_def and_then_def fun_eq_iff split: sum.splits)
  have d: "trace w' = trace w @ map Applied arriving \<and> fetched (trace w') = fetched (trace w)"
    if "startRealtimeIndexing c arriving w = Inr w'" for w'
    using apply_events_trace [of c arriving w w'] that by (simp add: startRealtimeIndexing_def)
  from a getLastIndexedBlock_cong [OF a] b d show ?thesis
    by (simp add: startRealtimeIndexing_def)
qed

theorem streaming_applies_each_event_alone_witness:
  "(\<exists>w'. startRealtimeIndexing (chain_reward_paid 100) (logs (chain_reward_paid 100))
             (market_world 0 2) = Inr w'
        \<and> trace w' = map Applied (logs (chain_reward_paid 100))
        \<and> fetched (trace w') = []
        \<and> getLastIndexedBlock env1 w' = 40)"
proof -
  let ?r = "startRealtimeIndexing (chain_reward_paid 100) (logs (chain_reward_paid 100))
             (market_world 0 2)"
  have r: "\<not> isl ?r"
    by (simp add: startRealtimeIndexing_def chain_reward_paid_def batch_defs handleRewardPaid_def
      add_earned_def)
  then obtain w' where w': "?r = Inr w'"
    by (cases ?r) auto
  have t: "trace (market_world 0 2) = []"
    and g: "getLastIndexedBlock env1 (market_world 0 2) = 40"
    by (simp_all add: fixture_defs getLastIndexedBlock_def env1_key)
  from streaming_applies_each_event_alone [of "chain_reward_paid 100"
      "logs (chain_reward_paid 100)" "market_world 0 2" env1] w' t g
  show ?thesis by simp
qed

subsection \<open>handleSubmissionCreated and hunter_stats\<close>

text \<open>
  C9 as stated fails: hunter 0xbb is in users and has a hunter_stats row; after a
  SubmissionCreated of that hunter, be it on bounty 7, which has a row, or on bounty 8,
  which has none, the hunter's statistics are in hunter_stats as before, not absent
  from it.
\<close>

theorem returning_hunter_counterexample:
  "select_user (toLowerCase ''0xBB'') (market_world 0 2) \<noteq> []
   \<and> list_ex (\<lambda>h. hs_wallet_address h = toLowerCase ''0xBB'')
         (hunter_stats (left_behind (handleSubmissionCreated 5 (chain1 [])
            (event_at (SubmissionCreated 4 7 ''0xBB'') 12 0) 4 7 ''0xBB'' (market_world 0 2))))
   \<and> list_ex (\<lambda>h. hs_wallet_address h = toLowerCase ''0xBB'')
         (hunter_stats (left_behind (handleSubmissionCreated 5 (chain1 [])
            (event_at (SubmissionCreated 4 8 ''0xBB'') 12 0) 4 8 ''0xBB'' (market_world 0 2))))
   \<and> map hs_wallet_address
         (hunter_stats (left_behind (handleSubmissionCreated 5 (chain1 [])
            (event_at (SubmissionCreated 4 7 ''0xBB'') 12 0) 4 7 ''0xBB'' (market_world 0 2))))
       = [''0xbb'']
   \<and> map hs_wallet_address
         (hunter_stats (left_behind (handleSubmissionCreated 5 (chain1 [])
            (event_at (SubmissionCreated 4 8 ''0xBB'') 12 0) 4 8 ''0xBB'' (market_world 0 2))))
       = [''0xbb'']"
proof -
  have u: "select_user (toLowerCase ''0xBB'') (market_world 0 2)
      = [\<lparr>u_id = 2, u_wallet_address = ''0xbb'', u_role = ''hunter''\<rparr>]"
    by (simp add: select_user_def fixture_defs lower_0xBB)
  show ?thesis
    using handleSubmissionCreated_known [OF u, of 5 "chain1 []"
        "event_at (SubmissionCreated 4 7 ''0xBB'') 12 0" 4 7]
      handleSubmissionCreated_known [OF u, of 5 "chain1 []"
        "event_at (SubmissionCreated 4 8 ''0xBB'') 12 0" 4 8]
    by (simp add: u) (simp add: fixture_defs lower_0xBB)
qed

text \<open>
  C9, amended. When the hunter's wallet is already in users, handleSubmissionCreated
  inserts neither a user row nor a hunter_stats row: hunter_stats holds the same
  wallets, row by row, afterwards as before. A wallet without a hunter_stats row is
  left without one, and hunter_stats is then exactly as it was, an increment of
  total_submissions having no row to update; a wallet that has a hunter_stats row keeps
  it. When the bounty has no row, the handler writes its console line and returns
  before the increment, leaving all tables as they were.
\<close>

theorem known_wallet_gets_no_stats_row:
  assumes "select_user (toLowerCase hunter) w \<noteq> []"
  shows "map hs_wallet_address
           (hunter_stats (left_behind (handleSubmissionCreated now c ev sid bid hunter w)))
           = map hs_wallet_address (hunter_stats w)
       \<and> users (left_behind (handleSubmissionCreated now c ev sid bid hunter w)) = users w
       \<and> (\<not> list_ex (\<lambda>h. hs_wallet_address h = toLowerCase hunter) (hunter_stats w) \<longrightarrow>
            hunter_stats (left_behind (handleSubmissionCreated now c ev sid bid hunter w))
              = hunter_stats w
            \<and> \<not> list_ex (\<lambda>h. hs_wallet_address h = toLowerCase hunter)
                (hunter_stats (left_behind (handleSubmissionCreated now c ev sid bid hunter w))))
       \<and> (list_ex (\<lambda>h. hs_wallet_address h = toLowerCase hunter) (hunter_stats w) \<longrightarrow>
            list_ex (\<lambda>h. hs_wallet_address h = toLowerCase hunter)
              (hunter_stats (left_behind (handleSubmissionCreated now c ev sid bid hunter w))))
       \<and> (\<not> list_ex (\<lambda>b. b_bounty_id b = bid) (bounties w) \<longrightarrow>
            handleSubmissionCreated now c ev sid bid hunter w
              = Inr (w\<lparr>console := console w @ [BountyNotFound bid]\<rparr>))"
proof -
  obtain u us where u: "select_user (toLowerCase hunter) w = u # us"
    using assms by (cases "select_user (toLowerCase hunter) w") auto
  show ?thesis
    by (simp add: handleSubmissionCreated_known [OF u])
qed

theorem known_wallet_gets_no_stats_row_witness:
  "select_user (toLowerCase ''0xAA'') (market_world 0 2) \<noteq> []
   \<and> \<not> list_ex (\<lambda>h. hs_wallet_address h = toLowerCase ''0xAA'') (hunter_stats (market_world 0 2))
   \<and> list_ex (\<lambda>b. b_bounty_id b = 7) (bounties (market_world 0 2))
   \<and> \<not> list_ex (\<lambda>b. b_bounty_id b = 8) (bounties (market_world 0 2))
   \<and> hunter_stats (left_behind (handleSubmissionCreated 5 (chain1 [])
         (event_at (SubmissionCreated 4 7 ''0xAA'') 12 0) 4 7 ''0xAA'' (market_world 0 2)))
       = hunter_stats (market_world 0 2)
   \<and> handleSubmissionCreated 5 (chain1 []) (event_at (SubmissionCreated 4 8 ''0xAA'') 12 0)
         4 8 ''0xAA'' (market_world 0 2)
       = Inr ((market_world 0 2)\<lparr>console := console (market_world 0 2) @ [BountyNotFound 8]\<rparr>)
   \<and> \<not> list_ex (\<lambda>h. hs_wallet_address h = toLowerCase ''0xAA'')
         (hunter_stats (left_behind (handleSubmissionCreated 5 (chain1 [])
            (event_at (SubmissionCreated 4 8 ''0xAA'') 12 0) 4 8 ''0xAA'' (market_world 0 2))))"
proof -
  have h: "select_user (toLowerCase ''0xAA'') (market_world 0 2) \<noteq> []"
    by (simp add: select_user_def fixture_defs lower_0xAA)
  have n: "\<not> list_ex (\<lambda>h. hs_wallet_address h = toLowerCase ''0xAA'')
             (hunter_stats (market_world 0 2))"
    by (simp add: fixture_defs lower_0xAA)
  have b: "list_ex (\<lambda>b. b_bounty_id b = 7) (bounties (market_world 0 2))"
    "\<not> list_ex (\<lambda>b. b_bounty_id b = 8) (bounties (market_world 0 2))"
    by (simp_all add: fixture_defs)
  from known_wallet_gets_no_stats_row [OF h, of 5 "chain1 []"
      "event_at (SubmissionCreated 4 7 ''0xAA'') 12 0" 4 7]
    known_wallet_gets_no_stats_row [OF h, of 5 "chain1 []"
      "event_at (SubmissionCreated 4 8 ''0xAA'') 12 0" 4 8] h n b
  show ?thesis by simp
qed

subsection \<open>The checkpoint across restarts\<close>

text \<open>
  C10. When the row of the (contract_address, network) key is already in indexer_state,
  initializeState changes nothing but last_updated: every other table and field is as
  before, each row keeps its last_block, and getLastIndexedBlock reads the same block
  after the restart as before it.
\<close>

theorem initializeState_keeps_last_block:
  assumes "list_ex (state_key e) (indexer_state w)"
  shows "(initializeState now e w)\<lparr>indexer_state := indexer_state w\<rparr> = w
       \<and> map (\<lambda>r. r\<lparr>is_last_updated := 0\<rparr>) (indexer_state (initializeState now e w))
           = map (\<lambda>r. r\<lparr>is_last_updated := 0\<rparr>) (indexer_state w)
       \<and> map is_last_block (indexer_state (initializeState now e w))
           = map is_last_block (indexer_state w)
       \<and> getLastIndexedBlock e (initializeState now e w) = getLastIndexedBlock e w"
proof -
  let ?f = "\<lambda>r. if state_key e r then r\<lparr>is_last_updated := now\<rparr> else r"
  have rows: "indexer_state (initializeState now e w) = map ?f (indexer_state w)"
    using assms by (simp add: initializeState_def)
  have a: "(initializeState now e w)\<lparr>indexer_state := indexer_state w\<rparr> = w"
    using assms by (simp add: initializeState_def)
  have b0: "map (\<lambda>r. r\<lparr>is_last_updated := 0\<rparr>) (map ?f rs)
           = map (\<lambda>r. r\<lparr>is_last_updated := 0\<rparr>) rs" for rs
    by (induction rs) auto
  have c0: "map is_last_block (map ?f rs) = map is_last_block rs" for rs
    by (induction rs) auto
  have d: "getLastIndexedBlock e (initializeState now e w) = getLastIndexedBlock e w"
    unfolding getLastIndexedBlock_def rows filter_key_touch
    by (cases "filter (state_key e) (indexer_state w)") auto
  from a b0 c0 d show ?thesis unfolding rows by blast
qed

theorem initializeState_keeps_last_block_witness:
  "list_ex (state_key env1) (indexer_state (checkpoint_world 40))
   \<and> getLastIndexedBlock env1 (checkpoint_world 40) = 40
   \<and> getLastIndexedBlock env1 (initializeState 99 env1 (checkpoint_world 40)) = 40
   \<and> map is_last_block (indexer_state (initializeState 99 env1 (checkpoint_world 40))) = [40]"
proof -
  have h: "list_ex (state_key env1) (indexer_state (checkpoint_world 40))"
    by (simp add: checkpoint_world_def empty_world_def env1_key)
  have g: "getLastIndexedBlock env1 (checkpoint_world 40) = 40"
    by (simp add: getLastIndexedBlock_def checkpoint_world_def empty_world_def env1_key)
  have m: "map is_last_block (indexer_state (checkpoint_world 40)) = [40]"
    by (simp add: checkpoint_world_def empty_world_def)
  from initializeState_keeps_last_block [OF h, of 99] h g m show ?thesis by simp
qed

end
